theory Spec2Isabelle
  imports Main
begin

section \<open>Python values held by the configuration\<close>

text \<open>
  The attributes of \<open>Configuration\<close> are dynamically typed. The classes that the tool
  assigns to them are \<open>NoneType\<close>, \<open>bool\<close>, \<open>int\<close> and \<open>str\<close>; \<open>raise_if_invalid\<close>
  tests the class of each attribute at run time, so the class is part of the value.
  Text is a list of characters with codes below 256, one \<open>char\<close> per character.
\<close>

datatype pyval = PNone | PBool bool | PInt int | PStr string





subsection \<open>Decimal text of an integer: \<open>str(n)\<close> and \<open>int(s)\<close>\<close>

definition digit_char :: "nat \<Rightarrow> char" where
  "digit_char d = ''0123456789'' ! d"

definition is_digit :: "char \<Rightarrow> bool" where
  "is_digit c = (48 \<le> (of_char c :: nat) \<and> (of_char c :: nat) \<le> 57)"

definition digit_val :: "char \<Rightarrow> nat" where
  "digit_val c = of_char c - 48"

function nat_digits :: "nat \<Rightarrow> string" where
  "nat_digits n = (if n < 10 then [digit_char n] else nat_digits (n div 10) @ [digit_char (n mod 10)])"
  by pat_completeness auto
termination
  by (relation "measure id") auto

declare nat_digits.simps [simp del]

definition str_int :: "int \<Rightarrow> string" where
  "str_int i = (if i < 0 then CHR ''-'' # nat_digits (nat (- i)) else nat_digits (nat i))"

text \<open>\<open>str(v)\<close> for the four classes.\<close>

fun py_str :: "pyval \<Rightarrow> string" where
  "py_str PNone = ''None''"
| "py_str (PBool b) = (if b then ''True'' else ''False'')"
| "py_str (PInt i) = str_int i"
| "py_str (PStr s) = s"

text \<open>\<open>str.isspace\<close> on the codes below 256, and \<open>str.strip()\<close>.\<close>

definition is_space :: "char \<Rightarrow> bool" where
  "is_space c =
     (let n = (of_char c :: nat)
      in n = 32 \<or> (9 \<le> n \<and> n \<le> 13) \<or> (28 \<le> n \<and> n \<le> 31) \<or> n = 133 \<or> n = 160)"

text \<open>Text with no line break: files are read with universal newlines.\<close>

definition single_line :: "string \<Rightarrow> bool" where
  "single_line s = list_all (\<lambda>c. c \<noteq> CHR 0x0A \<and> c \<noteq> CHR 0x0D) s"

definition strip :: "string \<Rightarrow> string" where
  "strip s = rev (dropWhile is_space (rev (dropWhile is_space s)))"

text \<open>
  The digits of an integer literal after its first digit: digits, with single
  underscores between digits.
\<close>

fun digits_value :: "nat \<Rightarrow> string \<Rightarrow> nat option" where
  "digits_value acc [] = Some acc"
| "digits_value acc (c # cs) =
     (if is_digit c then digits_value (acc * 10 + digit_val c) cs
      else if c = CHR ''_'' then
        (case cs of
           [] \<Rightarrow> None
         | d # ds \<Rightarrow> if is_digit d then digits_value (acc * 10 + digit_val d) ds else None)
      else None)"

definition unsigned_int :: "string \<Rightarrow> nat option" where
  "unsigned_int s =
     (case s of
        [] \<Rightarrow> None
      | c # cs \<Rightarrow> if is_digit c then digits_value (digit_val c) cs else None)"

text \<open>\<open>int(s)\<close> for a string: \<open>None\<close> stands for the \<open>ValueError\<close>.\<close>

definition py_int :: "string \<Rightarrow> int option" where
  "py_int s =
     (case strip s of
        [] \<Rightarrow> None
      | c # cs \<Rightarrow>
          if c = CHR ''-'' then map_option (\<lambda>n. - int n) (unsigned_int cs)
          else if c = CHR ''+'' then map_option int (unsigned_int cs)
          else map_option int (unsigned_int (c # cs)))"

subsection \<open>\<open>str.lower\<close>, \<open>in\<close> and \<open>str.replace\<close>\<close>

definition to_lower :: "char \<Rightarrow> char" where
  "to_lower c = (let n = (of_char c :: nat) in if 65 \<le> n \<and> n \<le> 90 then char_of (n + 32) else c)"

definition lower :: "string \<Rightarrow> string" where
  "lower s = map to_lower s"

fun starts_with :: "string \<Rightarrow> string \<Rightarrow> bool" where
  "starts_with s [] = True"
| "starts_with [] (p # ps) = False"
| "starts_with (c # cs) (p # ps) = (c = p \<and> starts_with cs ps)"

text \<open>\<open>sub in s\<close>.\<close>

fun str_in :: "string \<Rightarrow> string \<Rightarrow> bool" where
  "str_in sub [] = (sub = [])"
| "str_in sub (c # cs) = (starts_with (c # cs) sub \<or> str_in sub cs)"

text \<open>
  \<open>s.replace(old, new)\<close>: every occurrence of \<open>old\<close>, found from the left and not
  overlapping, becomes \<open>new\<close>. With an empty \<open>old\<close> Python puts \<open>new\<close> before every
  character and at the end.
\<close>

function str_replace :: "string \<Rightarrow> string \<Rightarrow> string \<Rightarrow> string" where
  "str_replace old new [] = (if old = [] then new else [])"
| "str_replace old new (c # cs) =
     (if old = [] then new @ c # str_replace old new cs
      else if starts_with (c # cs) old then new @ str_replace old new (drop (length old) (c # cs))
      else c # str_replace old new cs)"
  by pat_completeness auto
termination
  by (relation "measure (\<lambda>(old, new, s). length s)") auto

section \<open>Profile section names\<close>

text \<open>
  \<open>config_profile\<close>: the config file names the section of profile \<open>testing\<close>
  \<open>[profile testing]\<close>; a profile whose lower-cased text is \<open>default\<close> is returned as
  it was given.
\<close>

definition config_profile :: "pyval \<Rightarrow> pyval" where
  "config_profile profile =
     (if lower (py_str profile) = ''default'' then profile
      else PStr (''profile '' @ py_str profile))"

text \<open>
  Two characters are the same letter up to case, and two strings are equal up to the
  case of their letters. This is the comparison in the words of the specification; it
  does not use \<open>lower\<close>.
\<close>

definition is_upper :: "char \<Rightarrow> bool" where
  "is_upper c = (65 \<le> (of_char c :: nat) \<and> (of_char c :: nat) \<le> 90)"

definition is_lower :: "char \<Rightarrow> bool" where
  "is_lower c = (97 \<le> (of_char c :: nat) \<and> (of_char c :: nat) \<le> 122)"

definition same_letter :: "char \<Rightarrow> char \<Rightarrow> bool" where
  "same_letter a b =
     (a = b
      \<or> (is_upper a \<and> is_lower b \<and> (of_char b :: nat) = of_char a + 32)
      \<or> (is_lower a \<and> is_upper b \<and> (of_char a :: nat) = of_char b + 32))"

definition equal_ignoring_case :: "string \<Rightarrow> string \<Rightarrow> bool" where
  "equal_ignoring_case s t = list_all2 same_letter s t"

section \<open>Exceptions\<close>

text \<open>
  An \<open>assert\<close> of the source raises \<open>AssertionError\<close> with the message given; the
  exceptions of the standard library are kept by class.
\<close>

datatype error =
    AssertionError string
  | ValueError
  | TypeError
  | AttributeError
  | DuplicateSectionError
  | NoSectionError
  | ParsingError
  | PermissionError
  | FileNotFoundError
  | FileExistsError
  | NotADirectoryError
  | IsADirectoryError

section \<open>Timestamps and the token record\<close>

text \<open>
  A \<open>datetime\<close> is either aware (it has a UTC offset and names an instant, here in
  microseconds) or naive (a wall-clock reading with no offset). \<open>datetime.fromisoformat\<close>
  gives a naive value for a text with no offset. Ordering an aware against a naive
  value raises \<open>TypeError\<close>.
\<close>

datatype datetime = Aware int | Naive int

fun datetime_le :: "datetime \<Rightarrow> datetime \<Rightarrow> error + bool" where
  "datetime_le (Aware a) (Aware b) = Inr (a \<le> b)"
| "datetime_le (Naive a) (Naive b) = Inr (a \<le> b)"
| "datetime_le (Aware a) (Naive b) = Inl TypeError"
| "datetime_le (Naive a) (Aware b) = Inl TypeError"

text \<open>
  The dictionary that \<open>read_token_cache\<close> builds always has these four keys; a key
  whose option is missing from the file holds \<open>None\<close>.
\<close>

record token =
  AccessKeyId :: "string option"
  SecretAccessKey :: "string option"
  SessionToken :: "string option"
  Expiration :: "datetime option"

section \<open>The configuration object\<close>

record Configuration =
  options :: "string \<rightharpoonup> pyval"
  ask_role :: pyval
  duration :: pyval
  auto_duration :: pyval
  login_url :: pyval
  profile :: pyval
  region :: pyval
  role_arn :: pyval
  use_saml_cache :: pyval
  priv_saml_cache :: "string option"
  priv_token_cache :: "token option"
  resolve_aliases :: pyval
  print_creds :: pyval
  credential_process :: pyval
  quiet :: pyval
  account :: pyval
  port :: pyval

definition max_duration :: int where
  "max_duration = 43200"

text \<open>\<open>__init__\<close>: the defaults.\<close>

definition Configuration_init :: Configuration where
  "Configuration_init =
     \<lparr> options = Map.empty,
       ask_role = PBool True,
       duration = PInt max_duration,
       auto_duration = PBool False,
       login_url = PNone,
       profile = PStr ''default'',
       region = PNone,
       role_arn = PNone,
       use_saml_cache = PBool True,
       priv_saml_cache = None,
       priv_token_cache = None,
       resolve_aliases = PBool True,
       print_creds = PBool False,
       credential_process = PBool False,
       quiet = PBool False,
       account = PStr [],
       port = PInt 8000 \<rparr>"

text \<open>
  The two paths come from the botocore session (\<open>get_config_variable\<close>, then
  \<open>expanduser\<close>); they are inputs here.
\<close>

record env =
  config_file :: string
  credentials_file :: string

subsection \<open>\<open>saml_cache_file\<close>\<close>

text \<open>
  \<open>sha1_hexdigest u\<close> stands for \<open>hashlib.sha1(u.encode("utf-8")).hexdigest()\<close>. A
  \<open>login_url\<close> that is neither \<open>None\<close> nor a \<open>str\<close> has no \<open>encode\<close>.
\<close>

definition saml_cache_file :: "(string \<Rightarrow> string) \<Rightarrow> env \<Rightarrow> Configuration \<Rightarrow> error + string" where
  "saml_cache_file sha1_hexdigest e cfg =
     (case login_url cfg of
        PNone \<Rightarrow> Inl (AssertionError ''Cannot look for smal cache file if no login url'')
      | PStr u \<Rightarrow>
          Inr (str_replace ''credentials'' (''saml_cache_'' @ sha1_hexdigest u @ ''.xml'')
                 (credentials_file e))
      | _ \<Rightarrow> Inl AttributeError)"

subsection \<open>The SAML cache accessor\<close>

text \<open>
  Modelled from the spec: \<open>amazon.Amazon.is_valid_saml_assertion\<close> is not among the
  sources. The specification says that an absent blob is invalid and that a present
  blob is judged by a structural check that belongs to a collaborator; that check is
  the parameter \<open>well_formed\<close>.
\<close>

definition is_valid_saml_assertion :: "(string \<Rightarrow> bool) \<Rightarrow> string option \<Rightarrow> bool" where
  "is_valid_saml_assertion well_formed blob =
     (case blob of None \<Rightarrow> False | Some b \<Rightarrow> well_formed b)"

text \<open>The getter returns the value and the object as it leaves it.\<close>

definition saml_cache :: "(string \<Rightarrow> bool) \<Rightarrow> Configuration \<Rightarrow> string option \<times> Configuration" where
  "saml_cache well_formed cfg =
     (let cfg' = (if \<not> is_valid_saml_assertion well_formed (priv_saml_cache cfg)
                  then cfg\<lparr>priv_saml_cache := None\<rparr> else cfg)
      in (priv_saml_cache cfg', cfg'))"

definition saml_cache_setter :: "string option \<Rightarrow> Configuration \<Rightarrow> Configuration" where
  "saml_cache_setter v cfg = cfg\<lparr>priv_saml_cache := v\<rparr>"

subsection \<open>The token cache accessor\<close>

text \<open>
  \<open>now\<close> is the instant \<open>datetime.now(tz.UTC)\<close> returns, an aware value. The tests are
  made in the order of the source's \<open>or\<close> chain: the expiration is compared before the
  two keys are looked at.
\<close>

definition token_cache :: "int \<Rightarrow> Configuration \<Rightarrow> (error + token option) \<times> Configuration" where
  "token_cache now cfg =
     (case priv_token_cache cfg of
        None \<Rightarrow> (Inr None, cfg)
      | Some t \<Rightarrow>
          (case Expiration t of
             None \<Rightarrow> (Inr None, cfg\<lparr>priv_token_cache := None\<rparr>)
           | Some ex \<Rightarrow>
               (case datetime_le ex (Aware now) of
                  Inl er \<Rightarrow> (Inl er, cfg)
                | Inr expired \<Rightarrow>
                    if expired \<or> AccessKeyId t = None \<or> SecretAccessKey t = None
                    then (Inr None, cfg\<lparr>priv_token_cache := None\<rparr>)
                    else (Inr (Some t), cfg))))"

subsection \<open>\<open>raise_if_invalid\<close>\<close>



section \<open>The profile store: \<open>RawConfigParser\<close>\<close>

text \<open>
  A document of the store is the section \<open>[DEFAULT]\<close> (\<open>ini_defaults\<close>) and the named
  sections, each a map from option names to text. A file holds a document as
  \<open>RawConfigParser.write\<close> printed it. The lines of the printed text are not modelled;
  \<open>ini_layout\<close> records how the text reads back:
  \<^item> \<open>Plain\<close>: every header and every value is one line; the parser returns the
    document with the blanks around every value stripped;
  \<^item> \<open>Broken\<close>: a section with the empty name was added, which is printed as the
    header \<open>[]\<close>; the parser refuses that line with \<open>ParsingError\<close>;
  \<^item> \<open>Opaque\<close>: a header or a value that was added holds a line break, so the text
    has lines that this model does not describe; what the parser makes of it is
    left open (\<open>opaque_reads\<close> below).
\<close>

datatype layout = Plain | Broken | Opaque

record ini =
  ini_defaults :: "string \<rightharpoonup> string"
  ini_sections :: "string \<rightharpoonup> (string \<rightharpoonup> string)"
  ini_layout :: layout

definition ini_empty :: ini where
  "ini_empty = \<lparr> ini_defaults = Map.empty, ini_sections = Map.empty, ini_layout = Plain \<rparr>"

text \<open>An opaque text stays opaque; otherwise a broken one stays broken.\<close>

definition worse :: "layout \<Rightarrow> layout \<Rightarrow> layout" where
  "worse a b =
     (if a = Opaque \<or> b = Opaque then Opaque
      else if a = Broken \<or> b = Broken then Broken
      else Plain)"

definition header_layout :: "string \<Rightarrow> layout" where
  "header_layout name =
     (if \<not> single_line name then Opaque else if name = [] then Broken else Plain)"

definition value_layout :: "string \<Rightarrow> layout" where
  "value_layout v = (if single_line v then Plain else Opaque)"

text \<open>
  What a parser returns for a document: values are stripped; a header \<open>[DEFAULT]\<close>
  never opens a named section, and no section has the empty name. The state of a
  parser that has just read a file prints plainly.
\<close>

definition ini_parse :: "ini \<Rightarrow> ini" where
  "ini_parse d =
     \<lparr> ini_defaults = (\<lambda>k. map_option strip (ini_defaults d k)),
       ini_sections = (\<lambda>s. if s = ''DEFAULT'' \<or> s = [] then None
                            else map_option (\<lambda>m k. map_option strip (m k)) (ini_sections d s)),
       ini_layout = Plain \<rparr>"

text \<open>\<open>has_section\<close>: the keys of the parsed sections are strings.\<close>

definition cp_has_section :: "ini \<Rightarrow> pyval \<Rightarrow> bool" where
  "cp_has_section p section =
     (case section of PStr s \<Rightarrow> ini_sections p s \<noteq> None | _ \<Rightarrow> False)"

text \<open>
  \<open>add_section\<close>. A section whose name is not a string is printed under \<open>str(name)\<close>,
  which is the key it has here.
\<close>

definition cp_add_section :: "ini \<Rightarrow> pyval \<Rightarrow> error + ini" where
  "cp_add_section p section =
     (if section = PStr ''DEFAULT'' then Inl ValueError
      else if cp_has_section p section then Inl DuplicateSectionError
      else Inr (p\<lparr>ini_sections := (ini_sections p)(py_str section \<mapsto> Map.empty),
                  ini_layout := worse (ini_layout p) (header_layout (py_str section))\<rparr>))"

text \<open>Truth value of a Python value, as \<open>not section\<close> tests it.\<close>

fun truthy :: "pyval \<Rightarrow> bool" where
  "truthy PNone = False"
| "truthy (PBool b) = b"
| "truthy (PInt i) = (i \<noteq> 0)"
| "truthy (PStr s) = (s \<noteq> [])"

text \<open>
  \<open>set(section, option, value)\<close>: an empty section name and \<open>DEFAULT\<close> address the
  defaults. The parser keeps the value as given and prints \<open>str(value)\<close> when the file is
  written; no value is read in between, so the printed text is stored at once.
\<close>

definition cp_set :: "ini \<Rightarrow> pyval \<Rightarrow> string \<Rightarrow> pyval \<Rightarrow> error + ini" where
  "cp_set p section option v =
     (if \<not> truthy section \<or> section = PStr ''DEFAULT'' then
        Inr (p\<lparr>ini_defaults := (ini_defaults p)(lower option \<mapsto> py_str v),
               ini_layout := worse (ini_layout p) (value_layout (py_str v))\<rparr>)
      else case ini_sections p (py_str section) of
        None \<Rightarrow> Inl NoSectionError
      | Some m \<Rightarrow>
          Inr (p\<lparr>ini_sections := (ini_sections p)(py_str section \<mapsto> m(lower option \<mapsto> py_str v)),
                 ini_layout := worse (ini_layout p) (value_layout (py_str v))\<rparr>))"

text \<open>A run of \<open>set\<close> statements on one section.\<close>

fun cp_set_all :: "ini \<Rightarrow> pyval \<Rightarrow> (string \<times> pyval) list \<Rightarrow> error + ini" where
  "cp_set_all p section [] = Inr p"
| "cp_set_all p section ((k, v) # kvs) =
     (case cp_set p section k v of
        Inl er \<Rightarrow> Inl er
      | Inr p' \<Rightarrow> cp_set_all p' section kvs)"

text \<open>
  \<open>parser[section].get(option, None)\<close>: the section's own value, else the value of
  \<open>[DEFAULT]\<close>, else the fallback \<open>None\<close>.
\<close>

definition cp_get :: "ini \<Rightarrow> string \<Rightarrow> string \<Rightarrow> pyval" where
  "cp_get p section option =
     (case ini_sections p section of
        None \<Rightarrow> PNone
      | Some m \<Rightarrow>
          (case m (lower option) of
             Some v \<Rightarrow> PStr v
           | None \<Rightarrow> (case ini_defaults p (lower option) of Some v \<Rightarrow> PStr v | None \<Rightarrow> PNone)))"

definition boolean_state :: "string \<Rightarrow> bool option" where
  "boolean_state s =
     (if s \<in> {''1'', ''yes'', ''true'', ''on''} then Some True
      else if s \<in> {''0'', ''no'', ''false'', ''off''} then Some False
      else None)"

definition cp_getboolean :: "ini \<Rightarrow> string \<Rightarrow> string \<Rightarrow> error + pyval" where
  "cp_getboolean p section option =
     (case cp_get p section option of
        PStr v \<Rightarrow> (case boolean_state (lower v) of None \<Rightarrow> Inl ValueError | Some b \<Rightarrow> Inr (PBool b))
      | _ \<Rightarrow> Inr PNone)"

definition cp_getint :: "ini \<Rightarrow> string \<Rightarrow> string \<Rightarrow> error + pyval" where
  "cp_getint p section option =
     (case cp_get p section option of
        PStr v \<Rightarrow> (case py_int v of None \<Rightarrow> Inl ValueError | Some i \<Rightarrow> Inr (PInt i))
      | _ \<Rightarrow> Inr PNone)"

section \<open>Files, directories and locks\<close>

text \<open>
  The world outside the object: the directories and files that exist, the files that
  cannot be opened for writing, the log of lock operations of this process, and what
  the parser makes of a text that this model does not describe (\<open>opaque_reads\<close>: any
  function, so that nothing is assumed about such a text).
\<close>

datatype lock_event = Acquire string | Release string

record world =
  dirs :: "string set"
  files :: "string \<rightharpoonup> ini"
  readonly :: "string set"
  lock_log :: "lock_event list"
  opaque_reads :: "ini \<Rightarrow> error + ini"

text \<open>\<open>posixpath.dirname\<close>.\<close>

definition os_path_dirname :: "string \<Rightarrow> string" where
  "os_path_dirname p =
     (let head = rev (dropWhile (\<lambda>c. c \<noteq> CHR ''/'') (rev p))
      in if head \<noteq> [] \<and> \<not> list_all (\<lambda>c. c = CHR ''/'') head
         then rev (dropWhile (\<lambda>c. c = CHR ''/'') (rev head))
         else head)"

text \<open>\<open>os.path.exists\<close>: the empty path names nothing.\<close>

definition os_path_exists :: "world \<Rightarrow> string \<Rightarrow> bool" where
  "os_path_exists w p = (p \<noteq> [] \<and> (p \<in> dirs w \<or> files w p \<noteq> None))"

text \<open>
  A new name can be entered in the directory \<open>parent\<close>: the empty parent is the
  working directory; a parent that is a file gives \<open>NotADirectoryError\<close>, one that is
  missing \<open>FileNotFoundError\<close>.
\<close>

definition enter_in :: "string \<Rightarrow> world \<Rightarrow> error + unit" where
  "enter_in parent w =
     (if parent = [] \<or> parent \<in> dirs w then Inr ()
      else if files w parent \<noteq> None then Inl NotADirectoryError
      else Inl FileNotFoundError)"

text \<open>
  \<open>os.mkdir\<close> makes one directory and not its parents; the empty name is refused with
  \<open>FileNotFoundError\<close>.
\<close>

definition os_mkdir :: "string \<Rightarrow> world \<Rightarrow> error + world" where
  "os_mkdir d w =
     (if d = [] then Inl FileNotFoundError
      else if os_path_exists w d then Inl FileExistsError
      else case enter_in (os_path_dirname d) w of
        Inl er \<Rightarrow> Inl er
      | Inr u \<Rightarrow> Inr (w\<lparr>dirs := insert d (dirs w)\<rparr>))"

text \<open>
  Modelled from the spec: \<open>util.Util.touch\<close> is not among the sources; the
  specification says that an empty file is created where the file is missing. The
  file can be created only under a name that is not empty, in a directory.
\<close>

definition touch :: "string \<Rightarrow> world \<Rightarrow> error + world" where
  "touch f w =
     (if f = [] then Inl FileNotFoundError
      else case enter_in (os_path_dirname f) w of
        Inl er \<Rightarrow> Inl er
      | Inr u \<Rightarrow> Inr (w\<lparr>files := (files w)(f \<mapsto> ini_empty)\<rparr>))"

text \<open>
  The loop of \<open>ensure_config_files_exist\<close>. An exception of \<open>os.mkdir\<close> or \<open>touch\<close> ends
  it; what was created before stays.
\<close>

fun ensure_files :: "string list \<Rightarrow> world \<Rightarrow> (error + unit) \<times> world" where
  "ensure_files [] w = (Inr (), w)"
| "ensure_files (f # fs) w =
     (let directory = os_path_dirname f
      in case (if \<not> os_path_exists w directory then os_mkdir directory w else Inr w) of
           Inl er \<Rightarrow> (Inl er, w)
         | Inr w1 \<Rightarrow>
             (case (if \<not> os_path_exists w1 f then touch f w1 else Inr w1) of
                Inl er \<Rightarrow> (Inl er, w1)
              | Inr w2 \<Rightarrow> ensure_files fs w2))"

definition ensure_config_files_exist :: "env \<Rightarrow> world \<Rightarrow> (error + unit) \<times> world" where
  "ensure_config_files_exist e w = ensure_files [config_file e, credentials_file e] w"

text \<open>
  \<open>RawConfigParser.read(path)\<close>: a path that cannot be opened (a directory, a missing
  file) is skipped, and the parser stays empty; an exception of the parser goes on to
  the caller.
\<close>

definition cp_read :: "world \<Rightarrow> string \<Rightarrow> error + ini" where
  "cp_read w path =
     (if path \<in> dirs w then Inr ini_empty
      else case files w path of
        None \<Rightarrow> Inr ini_empty
      | Some d \<Rightarrow>
          (case ini_layout d of
             Plain \<Rightarrow> if ini_sections d [] \<noteq> None then Inl ParsingError else Inr (ini_parse d)
           | Broken \<Rightarrow> Inl ParsingError
           | Opaque \<Rightarrow>
               (case opaque_reads w d of Inl er \<Rightarrow> Inl er | Inr p \<Rightarrow> Inr (ini_parse p))))"

text \<open>
  \<open>with open(path, "w+") as f: parser.write(f)\<close>: a directory cannot be opened for
  writing.
\<close>

definition cp_write :: "string \<Rightarrow> ini \<Rightarrow> world \<Rightarrow> (error + unit) \<times> world" where
  "cp_write path p w =
     (if path \<in> dirs w then (Inl IsADirectoryError, w)
      else if path \<in> readonly w then (Inl PermissionError, w)
      else (Inr (), w\<lparr>files := (files w)(path \<mapsto> p)\<rparr>))"

definition lock_path :: "string \<Rightarrow> string" where
  "lock_path f = f @ ''.lock''"

definition lock_acquire :: "string \<Rightarrow> world \<Rightarrow> world" where
  "lock_acquire l w = w\<lparr>lock_log := lock_log w @ [Acquire l]\<rparr>"

definition lock_release :: "string \<Rightarrow> world \<Rightarrow> world" where
  "lock_release l w = w\<lparr>lock_log := lock_log w @ [Release l]\<rparr>"

section \<open>\<open>write\<close>\<close>

text \<open>
  The credential record of the collaborator; \<open>expiration_isoformat\<close> is the text that
  \<open>amazon_object.expiration.isoformat()\<close> returns.
\<close>

record amazon =
  access_key_id :: string
  secret_access_key :: string
  session_token :: string
  expiration_isoformat :: string

text \<open>The body of the first \<open>try\<close>: the section of the config file.\<close>

definition write_config_section :: "env \<Rightarrow> Configuration \<Rightarrow> world \<Rightarrow> (error + unit) \<times> world" where
  "write_config_section e cfg w =
     (let section = config_profile (profile cfg)
      in case cp_read w (config_file e) of
           Inl er \<Rightarrow> (Inl er, w)
         | Inr config_parser \<Rightarrow>
             (case (if \<not> cp_has_section config_parser section
                    then cp_add_section config_parser section else Inr config_parser) of
                Inl er \<Rightarrow> (Inl er, w)
              | Inr p1 \<Rightarrow>
                  (case cp_set_all p1 section
                          [(''region'', region cfg),
                           (''asa.ask_role'', ask_role cfg),
                           (''asa.duration'', duration cfg),
                           (''asa.login_url'', login_url cfg),
                           (''asa.role_arn'', role_arn cfg)] of
                     Inl er \<Rightarrow> (Inl er, w)
                   | Inr p2 \<Rightarrow> cp_write (config_file e) p2 w)))"

text \<open>The body of the second \<open>try\<close>: the section of the credentials file.\<close>

definition write_credentials_section ::
    "env \<Rightarrow> Configuration \<Rightarrow> amazon \<Rightarrow> world \<Rightarrow> (error + unit) \<times> world" where
  "write_credentials_section e cfg amazon_object w =
     (case cp_read w (credentials_file e) of
        Inl er \<Rightarrow> (Inl er, w)
      | Inr credentials_parser \<Rightarrow>
          (case (if \<not> cp_has_section credentials_parser (profile cfg)
                 then cp_add_section credentials_parser (profile cfg)
                 else Inr credentials_parser) of
             Inl er \<Rightarrow> (Inl er, w)
           | Inr p1 \<Rightarrow>
               (case cp_set_all p1 (profile cfg)
                       [(''aws_access_key_id'', PStr (access_key_id amazon_object)),
                        (''aws_secret_access_key'', PStr (secret_access_key amazon_object)),
                        (''aws_security_token'', PStr (session_token amazon_object)),
                        (''aws_session_expiration'', PStr (expiration_isoformat amazon_object)),
                        (''aws_session_token'', PStr (session_token amazon_object))] of
                  Inl er \<Rightarrow> (Inl er, w)
                | Inr p2 \<Rightarrow> cp_write (credentials_file e) p2 w)))"

text \<open>
  \<open>write\<close>, here \<open>write_cfg\<close>. An exception of \<open>ensure_config_files_exist\<close> ends the
  call before the assertion. The credentials part stands inside the \<open>finally\<close> clause
  of the first \<open>try\<close>, after the release of the config-file lock: it runs whether the
  body raised or not. An exception of the credentials part replaces one of the first
  body; otherwise the exception of the first body, if any, goes on to the caller.
\<close>

definition write_cfg :: "env \<Rightarrow> Configuration \<Rightarrow> amazon option \<Rightarrow> world \<Rightarrow> (error + unit) \<times> world" where
  "write_cfg e cfg amazon_object w0 =
     (case ensure_config_files_exist e w0 of
        (Inl er, w1) \<Rightarrow> (Inl er, w1)
      | (Inr u0, w1) \<Rightarrow>
          if profile cfg = PNone then
            (Inl (AssertionError ''Can not store config/credentials if the AWS_PROFILE is None.''), w1)
          else
            let w2 = lock_acquire (lock_path (config_file e)) w1;
                (r1, w3) = write_config_section e cfg w2;
                w4 = lock_release (lock_path (config_file e)) w3
            in case amazon_object of
                 None \<Rightarrow> (r1, w4)
               | Some a \<Rightarrow>
                   let w5 = lock_acquire (lock_path (credentials_file e)) w4;
                       (r2, w6) = write_credentials_section e cfg a w5;
                       w7 = lock_release (lock_path (credentials_file e)) w6
                   in (case r2 of Inl er \<Rightarrow> (Inl er, w7) | Inr u \<Rightarrow> (r1, w7)))"

section \<open>\<open>read\<close>\<close>

text \<open>
  Modelled from the spec: \<open>util.Util.coalesce\<close> and
  \<open>util.Util.unicode_to_string_if_needed\<close> are not among the sources. The specification
  says that a field is overwritten with the value on disk only if that value is
  present, and otherwise keeps what it held: \<open>coalesce\<close> returns its first argument
  unless that is \<open>None\<close>, and the text read is handed on as it is.
\<close>

definition coalesce :: "pyval \<Rightarrow> pyval \<Rightarrow> pyval" where
  "coalesce a b = (if a \<noteq> PNone then a else b)"

definition unicode_to_string :: "pyval \<Rightarrow> pyval" where
  "unicode_to_string v = v"

text \<open>
  \<open>read\<close> returns, besides the world, the object as the call leaves it: an exception
  of \<open>ensure_config_files_exist\<close> or of the parser comes before any assignment; when
  \<open>getboolean\<close> or \<open>getint\<close> raises, the assignments made before stay.
\<close>

definition read :: "env \<Rightarrow> pyval \<Rightarrow> Configuration \<Rightarrow> world \<Rightarrow> (error + unit) \<times> Configuration \<times> world" where
  "read e prof cfg w0 =
     (case ensure_config_files_exist e w0 of
        (Inl er, w1) \<Rightarrow> (Inl er, cfg, w1)
      | (Inr u0, w1) \<Rightarrow>
          let profile_string = config_profile prof
          in case cp_read w1 (config_file e) of
               Inl er \<Rightarrow> (Inl er, cfg, w1)
             | Inr config_parser \<Rightarrow>
                 if cp_has_section config_parser profile_string then
                   let s = py_str profile_string;
                       c1 = cfg\<lparr>profile := prof\<rparr>
                   in case cp_getboolean config_parser s ''asa.ask_role'' of
                        Inl er \<Rightarrow> (Inl er, c1, w1)
                      | Inr read_ask_role \<Rightarrow>
                          let c2 = c1\<lparr>ask_role := coalesce read_ask_role (ask_role c1)\<rparr>
                          in (case cp_getint config_parser s ''asa.duration'' of
                                Inl er \<Rightarrow> (Inl er, c2, w1)
                              | Inr read_duration \<Rightarrow>
                                  let c3 = c2\<lparr>duration := coalesce read_duration (duration c2)\<rparr>;
                                      c4 = c3\<lparr>login_url := coalesce
                                             (unicode_to_string (cp_get config_parser s ''asa.login_url''))
                                             (login_url c3)\<rparr>;
                                      c5 = c4\<lparr>region := coalesce
                                             (unicode_to_string (cp_get config_parser s ''region''))
                                             (region c4)\<rparr>;
                                      c6 = c5\<lparr>role_arn := coalesce
                                             (unicode_to_string (cp_get config_parser s ''asa.role_arn''))
                                             (role_arn c5)\<rparr>;
                                      c7 = c6\<lparr>account := coalesce
                                             (unicode_to_string (cp_get config_parser s ''account''))
                                             (account c6)\<rparr>
                                  in (Inr (), c7, w1))
                 else (Inr (), cfg, w1))"

section \<open>Notions used in the statements\<close>

text \<open>
  The validity of a token record in the words of the specification: the record is
  present, both keys are present, and the expiration is present and later than now.
\<close>

definition is_token_cache_valid :: "int \<Rightarrow> token option \<Rightarrow> bool" where
  "is_token_cache_valid now record =
     (case record of
        None \<Rightarrow> False
      | Some t \<Rightarrow>
          AccessKeyId t \<noteq> None \<and> SecretAccessKey t \<noteq> None
          \<and> (case Expiration t of Some (Aware ex) \<Rightarrow> \<not> ex \<le> now | _ \<Rightarrow> False))"

text \<open>The expiration of the record, if it has one, can be ordered against the aware clock.\<close>

definition expiration_comparable :: "token option \<Rightarrow> bool" where
  "expiration_comparable record =
     (case record of
        None \<Rightarrow> True
      | Some t \<Rightarrow> (case Expiration t of Some (Naive ex) \<Rightarrow> False | _ \<Rightarrow> True))"

definition naive_token :: token where
  "naive_token = \<lparr> AccessKeyId = None, SecretAccessKey = Some ''secret'',
     SessionToken = Some ''session'', Expiration = Some (Naive 0) \<rparr>"

definition good_token :: token where
  "good_token = \<lparr> AccessKeyId = Some ''AKIA'', SecretAccessKey = Some ''secret'',
     SessionToken = Some ''session'', Expiration = Some (Aware 10) \<rparr>"


definition valid_example :: Configuration where
  "valid_example = Configuration_init\<lparr> login_url := PStr ''https://idp.example.com/sso'',
      region := PStr ''eu-west-1'', role_arn := PStr ''arn:aws:iam::123456789012:role/dev'' \<rparr>"

text \<open>
  What a file holds for an option: the text printed under the option in a named
  section (\<open>raw_value\<close>); what the parser returns for the option of a section
  (\<open>section_value\<close>); and the value found for the option from a section that exists,
  which is the section's own or else that of \<open>[DEFAULT]\<close> (\<open>found_value\<close>).
\<close>

definition raw_value :: "world \<Rightarrow> string \<Rightarrow> string \<Rightarrow> string \<Rightarrow> string option" where
  "raw_value w path s k =
     (case files w path of
        None \<Rightarrow> None
      | Some d \<Rightarrow> (case ini_sections d s of None \<Rightarrow> None | Some m \<Rightarrow> m k))"

definition section_value :: "world \<Rightarrow> string \<Rightarrow> string \<Rightarrow> string \<Rightarrow> string option" where
  "section_value w path s k =
     (case cp_read w path of
        Inl er \<Rightarrow> None
      | Inr p \<Rightarrow> (case ini_sections p s of None \<Rightarrow> None | Some m \<Rightarrow> m k))"

definition found_value :: "world \<Rightarrow> string \<Rightarrow> string \<Rightarrow> string \<Rightarrow> string option" where
  "found_value w path s k =
     (case cp_read w path of
        Inl er \<Rightarrow> None
      | Inr p \<Rightarrow>
          (case ini_sections p s of
             None \<Rightarrow> None
           | Some m \<Rightarrow> (case m k of Some v \<Rightarrow> Some v | None \<Rightarrow> ini_defaults p k)))"

text \<open>The parser accepts the file; it accepts the config file and finds the section of the profile.\<close>

definition parses :: "world \<Rightarrow> string \<Rightarrow> bool" where
  "parses w path = (case cp_read w path of Inl er \<Rightarrow> False | Inr p \<Rightarrow> True)"

definition has_profile_section :: "env \<Rightarrow> world \<Rightarrow> pyval \<Rightarrow> bool" where
  "has_profile_section e w prof =
     (case cp_read w (config_file e) of
        Inl er \<Rightarrow> False
      | Inr p \<Rightarrow> cp_has_section p (config_profile prof))"

text \<open>
  The value an attribute takes from the text found for its option: the text itself for
  the string attributes, the boolean or integer it denotes for \<open>ask_role\<close> and
  \<open>duration\<close>; the attribute keeps its value when nothing is found.
\<close>

definition text_or_kept :: "string option \<Rightarrow> pyval \<Rightarrow> pyval" where
  "text_or_kept found kept = (case found of None \<Rightarrow> kept | Some v \<Rightarrow> PStr v)"

definition bool_or_kept :: "string option \<Rightarrow> pyval \<Rightarrow> pyval" where
  "bool_or_kept found kept =
     (case found of
        None \<Rightarrow> kept
      | Some v \<Rightarrow> (case boolean_state (lower v) of None \<Rightarrow> kept | Some b \<Rightarrow> PBool b))"

definition int_or_kept :: "string option \<Rightarrow> pyval \<Rightarrow> pyval" where
  "int_or_kept found kept =
     (case found of
        None \<Rightarrow> kept
      | Some v \<Rightarrow> (case py_int v of None \<Rightarrow> kept | Some i \<Rightarrow> PInt i))"

text \<open>The text found, if any, denotes a boolean, respectively an integer.\<close>

definition denotes_bool :: "string option \<Rightarrow> bool" where
  "denotes_bool found =
     (case found of None \<Rightarrow> True | Some v \<Rightarrow> boolean_state (lower v) \<noteq> None)"

definition denotes_int :: "string option \<Rightarrow> bool" where
  "denotes_int found = (case found of None \<Rightarrow> True | Some v \<Rightarrow> py_int v \<noteq> None)"

text \<open>
  Text that the file format hands back as it was given: one line, with no blank at
  either end.
\<close>

definition clean_text :: "string \<Rightarrow> bool" where
  "clean_text s = (strip s = s \<and> single_line s)"

text \<open>
  The section of the credential record prints plainly: the profile name is not empty
  and the four texts of the record are single lines. A call of \<open>write\<close> without a
  record prints no such section.
\<close>

definition record_prints_plainly :: "string \<Rightarrow> amazon \<Rightarrow> bool" where
  "record_prints_plainly name a =
     (name \<noteq> [] \<and> single_line (access_key_id a) \<and> single_line (secret_access_key a)
      \<and> single_line (session_token a) \<and> single_line (expiration_isoformat a))"

definition credentials_print_plainly :: "string \<Rightarrow> amazon option \<Rightarrow> bool" where
  "credentials_print_plainly name amazon_object =
     (case amazon_object of None \<Rightarrow> True | Some a \<Rightarrow> record_prints_plainly name a)"

text \<open>Example paths, records and worlds.\<close>

definition example_env :: env where
  "example_env = \<lparr> config_file = ''/home/u/.aws/config'',
                    credentials_file = ''/home/u/.aws/credentials'' \<rparr>"

definition bare_env :: env where
  "bare_env = \<lparr> config_file = ''config'', credentials_file = ''credentials'' \<rparr>"

definition one_file_env :: env where
  "one_file_env = \<lparr> config_file = ''/home/u/.aws/config'',
                     credentials_file = ''/home/u/.aws/config'' \<rparr>"

definition example_amazon :: amazon where
  "example_amazon = \<lparr> access_key_id = ''ASIAEXAMPLE'', secret_access_key = ''secret'',
     session_token = ''token'', expiration_isoformat = ''2030-01-01T00:00:00+00:00'' \<rparr>"

definition padded_example :: Configuration where
  "padded_example = valid_example\<lparr> region := PStr '' eu-west-1'' \<rparr>"

definition reserved_example :: Configuration where
  "reserved_example = valid_example\<lparr> profile := PStr ''DEFAULT'' \<rparr>"

definition nameless_example :: Configuration where
  "nameless_example = valid_example\<lparr> profile := PStr [] \<rparr>"

definition empty_world :: world where
  "empty_world = \<lparr> dirs = {''/home/u''}, files = Map.empty, readonly = {}, lock_log = [],
                    opaque_reads = (\<lambda>d. Inl ParsingError) \<rparr>"

definition other_world :: world where
  "other_world =
     \<lparr> dirs = {''/home/u'', ''/home/u/.aws''},
       files = [''/home/u/.aws/config'' \<mapsto>
                  \<lparr> ini_defaults = Map.empty,
                    ini_sections = [''profile other'' \<mapsto> [''region'' \<mapsto> ''eu-west-1'']],
                    ini_layout = Plain \<rparr>],
       readonly = {},
       lock_log = [],
       opaque_reads = (\<lambda>d. Inl ParsingError) \<rparr>"

definition readonly_world :: world where
  "readonly_world =
     \<lparr> dirs = {''/home/u'', ''/home/u/.aws''},
       files = [''/home/u/.aws/config'' \<mapsto> ini_empty],
       readonly = {''/home/u/.aws/config''},
       lock_log = [],
       opaque_reads = (\<lambda>d. Inl ParsingError) \<rparr>"



text \<open>
  A world in which the two files are named without a directory and already exist, the
  config file with a section for the profile \<open>work\<close>.
\<close>

definition bare_world :: world where
  "bare_world =
     \<lparr> dirs = {},
       files = [''config'' \<mapsto>
                  \<lparr> ini_defaults = Map.empty,
                    ini_sections = [''profile work'' \<mapsto> [''region'' \<mapsto> ''eu-west-1'']],
                    ini_layout = Plain \<rparr>,
                ''credentials'' \<mapsto> ini_empty],
       readonly = {},
       lock_log = [],
       opaque_reads = (\<lambda>d. Inl ParsingError) \<rparr>"

section \<open>Section names of profiles\<close>

lemma to_lower_same_letter:
  assumes "is_lower b"
  shows "(to_lower a = b) = same_letter a b"
proof -
  have inj: "\<And>x y :: char. (of_char x :: nat) = of_char y \<Longrightarrow> x = y"
    by (metis char_of_char)
  show ?thesis
  proof (cases "is_upper a")
    case True
    then have lt: "(of_char a :: nat) + 32 < 256" by (simp add: is_upper_def)
    have tl: "to_lower a = char_of ((of_char a :: nat) + 32)"
      using True by (simp add: to_lower_def is_upper_def Let_def)
    have "(of_char (char_of ((of_char a :: nat) + 32)) :: nat) = of_char a + 32"
      using lt by simp
    then have "(to_lower a = b) = ((of_char b :: nat) = of_char a + 32)"
      unfolding tl using inj[of "char_of (of_char a + 32 :: nat)" b] by metis
    moreover have "a \<noteq> b" using True assms by (auto simp: is_upper_def is_lower_def)
    moreover have "\<not> is_upper b" using assms by (auto simp: is_upper_def is_lower_def)
    ultimately show ?thesis using True assms by (simp add: same_letter_def)
  next
    case False
    then have "to_lower a = a" by (auto simp: to_lower_def is_upper_def Let_def)
    moreover have "\<not> is_upper b" using assms by (auto simp: is_upper_def is_lower_def)
    ultimately show ?thesis using False by (auto simp: same_letter_def)
  qed
qed

lemma lower_eq_iff:
  "list_all is_lower t \<Longrightarrow> (lower s = t) = equal_ignoring_case s t"
  unfolding lower_def equal_ignoring_case_def
proof (induction s arbitrary: t)
  case Nil
  then show ?case by auto
next
  case (Cons a s)
  then show ?case by (cases t) (auto simp: to_lower_same_letter)
qed

lemma default_is_lower: "list_all is_lower ''default''"
  by (simp add: is_lower_def)

text \<open>
  C8. For every profile name, \<open>config_profile\<close> returns the name unchanged when it
  equals \<open>default\<close> up to the case of its letters, and otherwise the text \<open>profile\<close>, a
  blank and the name. The function reads nothing but its argument.
\<close>

theorem config_profile_by_case:
  "config_profile (PStr name) =
     (if equal_ignoring_case name ''default'' then PStr name else PStr (''profile '' @ name))"
  by (simp add: config_profile_def lower_eq_iff [OF default_is_lower])

lemma config_profile_examples:
  "config_profile (PStr ''default'') = PStr ''default''"
  "config_profile (PStr ''Default'') = PStr ''Default''"
  "config_profile (PStr ''work'') = PStr ''profile work''"
  by code_simp+

section \<open>The caches\<close>

text \<open>
  C1, as amended. For every token record whose expiration is absent or aware, the
  accessor returns the record unchanged when the record is present, both keys are
  present and the expiration is strictly later than now; in every other case (absent
  record, absent key, absent expiration, expiration at or before now) it clears the
  record in memory and returns absent.
\<close>

theorem token_cache_revalidates:
  assumes "expiration_comparable (priv_token_cache cfg)"
  shows "token_cache now cfg =
           (if is_token_cache_valid now (priv_token_cache cfg)
            then (Inr (priv_token_cache cfg), cfg)
            else (Inr None, cfg\<lparr>priv_token_cache := None\<rparr>))"
proof (cases "priv_token_cache cfg")
  case None
  then show ?thesis
    by (simp add: token_cache_def is_token_cache_valid_def)
next
  case (Some t)
  show ?thesis
  proof (cases "Expiration t")
    case None
    with Some show ?thesis
      by (simp add: token_cache_def is_token_cache_valid_def)
  next
    case (Some ex)
    with assms \<open>priv_token_cache cfg = Some t\<close> obtain i where "ex = Aware i"
      by (cases ex) (simp_all add: expiration_comparable_def)
    with Some \<open>priv_token_cache cfg = Some t\<close> show ?thesis
      by (simp add: token_cache_def is_token_cache_valid_def)
  qed
qed

theorem token_cache_revalidates_witness:
  "expiration_comparable (priv_token_cache (Configuration_init\<lparr>priv_token_cache := Some good_token\<rparr>))
   \<and> is_token_cache_valid 9 (Some good_token)
   \<and> fst (token_cache 9 (Configuration_init\<lparr>priv_token_cache := Some good_token\<rparr>)) = Inr (Some good_token)
   \<and> fst (token_cache 10 (Configuration_init\<lparr>priv_token_cache := Some good_token\<rparr>)) = Inr None"
  using token_cache_revalidates [of "Configuration_init\<lparr>priv_token_cache := Some good_token\<rparr>" 9]
    token_cache_revalidates [of "Configuration_init\<lparr>priv_token_cache := Some good_token\<rparr>" 10]
  by (simp add: expiration_comparable_def is_token_cache_valid_def good_token_def)

text \<open>
  C1 as stated fails: a record whose \<open>AccessKeyId\<close> is absent and whose expiration is a
  naive timestamp is neither cleared nor answered with absent; the comparison with the
  aware clock raises \<open>TypeError\<close> before the keys are looked at.
\<close>

theorem token_cache_naive_counterexample:
  "AccessKeyId naive_token = None
   \<and> fst (token_cache 0 (Configuration_init\<lparr>priv_token_cache := Some naive_token\<rparr>)) = Inl TypeError
   \<and> priv_token_cache (snd (token_cache 0 (Configuration_init\<lparr>priv_token_cache := Some naive_token\<rparr>)))
       = Some naive_token"
  by (simp add: token_cache_def naive_token_def)

text \<open>
  C2. Reading \<open>saml_cache\<close> returns the stored blob only if the validity predicate holds
  on it. If the predicate fails, the absent blob included, the stored blob becomes
  absent and absent is returned; every later read returns absent whatever predicate it
  is given, since the bytes are gone.
\<close>

theorem saml_cache_revalidates:
  "saml_cache well_formed cfg =
     (if is_valid_saml_assertion well_formed (priv_saml_cache cfg)
      then (priv_saml_cache cfg, cfg)
      else (None, cfg\<lparr>priv_saml_cache := None\<rparr>))
   \<and> (\<not> is_valid_saml_assertion well_formed (priv_saml_cache cfg) \<longrightarrow>
        (\<forall>again. saml_cache again (snd (saml_cache well_formed cfg))
                   = (None, cfg\<lparr>priv_saml_cache := None\<rparr>)))
   \<and> (\<forall>b. fst (saml_cache well_formed cfg) = Some b \<longrightarrow>
            priv_saml_cache cfg = Some b \<and> well_formed b)"
  by (auto simp: saml_cache_def is_valid_saml_assertion_def Let_def split: option.splits)

theorem saml_cache_revalidates_witness:
  "\<not> is_valid_saml_assertion (\<lambda>b. b = ''<ok/>'') (Some ''junk'')
   \<and> saml_cache (\<lambda>b. b = ''<ok/>'') (saml_cache_setter (Some ''junk'') Configuration_init)
        = (None, Configuration_init)
   \<and> saml_cache (\<lambda>b. True) (snd (saml_cache (\<lambda>b. b = ''<ok/>'') (saml_cache_setter (Some ''junk'') Configuration_init)))
        = (None, Configuration_init)
   \<and> fst (saml_cache (\<lambda>b. b = ''<ok/>'') (saml_cache_setter (Some ''<ok/>'') Configuration_init)) = Some ''<ok/>''"
proof -
  let ?junk = "saml_cache_setter (Some ''junk'') Configuration_init"
  let ?ok = "saml_cache_setter (Some ''<ok/>'') Configuration_init"
  have invalid: "\<not> is_valid_saml_assertion (\<lambda>b. b = ''<ok/>'') (priv_saml_cache ?junk)"
    by (simp add: is_valid_saml_assertion_def saml_cache_setter_def)
  have cleared: "?junk\<lparr>priv_saml_cache := None\<rparr> = Configuration_init"
    by (simp add: saml_cache_setter_def Configuration_init_def)
  have first: "saml_cache (\<lambda>b. b = ''<ok/>'') ?junk = (None, Configuration_init)"
    using saml_cache_revalidates [of "\<lambda>b. b = ''<ok/>''" ?junk, THEN conjunct1] invalid cleared
    by simp
  have later: "saml_cache (\<lambda>b. True) (snd (saml_cache (\<lambda>b. b = ''<ok/>'') ?junk))
                 = (None, Configuration_init)"
    using saml_cache_revalidates [of "\<lambda>b. b = ''<ok/>''" ?junk, THEN conjunct2, THEN conjunct1]
      invalid cleared
    by simp
  have kept: "fst (saml_cache (\<lambda>b. b = ''<ok/>'') ?ok) = Some ''<ok/>''"
    using saml_cache_revalidates [of "\<lambda>b. b = ''<ok/>''" ?ok, THEN conjunct1]
    by (simp add: is_valid_saml_assertion_def saml_cache_setter_def)
  show ?thesis
    using invalid first later kept by (simp add: saml_cache_setter_def)
qed

section \<open>Validation of the duration\<close>

lemma nat_digits_small: "n < 10 \<Longrightarrow> nat_digits n = [digit_char n]"
  by (simp add: nat_digits.simps)

lemma nat_digits_large:
  "10 \<le> n \<Longrightarrow> nat_digits n = nat_digits (n div 10) @ [digit_char (n mod 10)]"
  by (subst nat_digits.simps) simp






section \<open>The path of the SAML cache file\<close>

lemma starts_with_iff: "starts_with s p = (\<exists>r. s = p @ r)"
  by (induction s p rule: starts_with.induct) auto

lemma str_in_iff: "str_in sub s = (\<exists>a b. s = a @ sub @ b)"
proof (induction s)
  case Nil
  then show ?case by auto
next
  case (Cons c cs)
  show ?case
  proof
    assume "str_in sub (c # cs)"
    then consider "starts_with (c # cs) sub" | "str_in sub cs" by auto
    then show "\<exists>a b. c # cs = a @ sub @ b"
    proof cases
      case 1
      then obtain r where "c # cs = sub @ r" by (auto simp: starts_with_iff)
      then have "c # cs = [] @ sub @ r" by simp
      then show ?thesis by blast
    next
      case 2
      then obtain a b where "cs = a @ sub @ b" using Cons.IH by auto
      then have "c # cs = (c # a) @ sub @ b" by simp
      then show ?thesis by blast
    qed
  next
    assume "\<exists>a b. c # cs = a @ sub @ b"
    then obtain a b where ab: "c # cs = a @ sub @ b" by auto
    show "str_in sub (c # cs)"
    proof (cases a)
      case Nil
      with ab have "starts_with (c # cs) sub" by (auto simp: starts_with_iff)
      then show ?thesis by simp
    next
      case (Cons x a')
      with ab have "cs = a' @ sub @ b" by simp
      then have "str_in sub cs" using Cons.IH by blast
      then show ?thesis by simp
    qed
  qed
qed

lemma str_replace_absent:
  "old \<noteq> [] \<Longrightarrow> \<not> str_in old s \<Longrightarrow> str_replace old new s = s"
  by (induction s) auto

lemma str_replace_here:
  "old \<noteq> [] \<Longrightarrow> str_replace old new (old @ post) = new @ str_replace old new post"
  by (cases old) (auto simp: starts_with_iff)

lemma not_starts_with_before:
  assumes "old \<noteq> []" and "\<not> str_in old (a # pre @ butlast old)"
  shows "\<not> starts_with (a # pre @ old @ post) old"
proof
  assume "starts_with (a # pre @ old @ post) old"
  then obtain r where r: "a # pre @ old @ post = old @ r" by (auto simp: starts_with_iff)
  have split: "a # pre @ old @ post = (a # pre @ butlast old) @ (last old # post)"
    using assms(1) by (simp add: append_butlast_last_id [symmetric] del: append_butlast_last_id)
  have len: "length old \<le> length (a # pre @ butlast old)" by simp
  have tk: "\<And>(X::string) Y n. n \<le> length X \<Longrightarrow> take n (X @ Y) = take n X" by simp
  have "old = take (length old) (a # pre @ old @ post)" using r by simp
  also have "\<dots> = take (length old) (a # pre @ butlast old)"
    unfolding split by (rule tk [OF len])
  finally have "a # pre @ butlast old = [] @ old @ drop (length old) (a # pre @ butlast old)"
    by (metis append_Nil append_take_drop_id)
  then have "str_in old (a # pre @ butlast old)" unfolding str_in_iff by blast
  with assms(2) show False by simp
qed

lemma str_replace_first:
  assumes "old \<noteq> []" and "\<not> str_in old (pre @ butlast old)"
  shows "str_replace old new (pre @ old @ post) = pre @ new @ str_replace old new post"
  using assms(2)
proof (induction pre)
  case Nil
  show ?case using assms(1) by (simp add: str_replace_here)
next
  case (Cons a pre)
  have "\<not> starts_with (a # pre @ old @ post) old"
    using not_starts_with_before [OF assms(1)] Cons.prems by simp
  moreover have "\<not> str_in old (pre @ butlast old)" using Cons.prems by simp
  ultimately show ?case using Cons.IH assms(1) by simp
qed

text \<open>
  C7. With \<open>login_url\<close> set, the path of the SAML cache file is the path of the
  credentials file in which \<open>credentials\<close> is replaced by \<open>saml_cache_\<close>, the SHA-1 hex
  digest of \<open>login_url\<close> and \<open>.xml\<close>: it is a function of the two, and where the path has
  one occurrence of the token the rest of the path stays. With \<open>login_url\<close> absent the
  assertion fails.
\<close>

theorem saml_cache_file_path:
  "saml_cache_file sha1_hexdigest e (cfg\<lparr>login_url := PStr u\<rparr>) =
      Inr (str_replace ''credentials'' (''saml_cache_'' @ sha1_hexdigest u @ ''.xml'')
             (credentials_file e))
   \<and> (credentials_file e = pre @ ''credentials'' @ post
        \<and> \<not> str_in ''credentials'' (pre @ ''credential'')
        \<and> \<not> str_in ''credentials'' post \<longrightarrow>
      saml_cache_file sha1_hexdigest e (cfg\<lparr>login_url := PStr u\<rparr>) =
        Inr (pre @ ''saml_cache_'' @ sha1_hexdigest u @ ''.xml'' @ post))
   \<and> saml_cache_file sha1_hexdigest e (cfg\<lparr>login_url := PNone\<rparr>) =
        Inl (AssertionError ''Cannot look for smal cache file if no login url'')"
proof -
  have one: "credentials_file e = pre @ ''credentials'' @ post
        \<and> \<not> str_in ''credentials'' (pre @ ''credential'')
        \<and> \<not> str_in ''credentials'' post \<Longrightarrow>
      str_replace ''credentials'' new (credentials_file e) = pre @ new @ post" for new
    using str_replace_first [of "''credentials''" pre new post]
      str_replace_absent [of "''credentials''" post new]
    by simp
  show ?thesis
    using one by (simp add: saml_cache_file_def)
qed

theorem saml_cache_file_path_witness:
  "example_env = \<lparr> config_file = ''/home/u/.aws/config'',
                    credentials_file = ''/home/u/.aws/'' @ ''credentials'' @ [] \<rparr>
   \<and> \<not> str_in ''credentials'' (''/home/u/.aws/'' @ ''credential'')
   \<and> saml_cache_file (\<lambda>u. ''0beec7b5'') example_env
        (Configuration_init\<lparr>login_url := PStr ''https://idp.example.com/sso''\<rparr>)
      = Inr ''/home/u/.aws/saml_cache_0beec7b5.xml''"
proof -
  have a: "credentials_file example_env = ''/home/u/.aws/'' @ ''credentials'' @ []"
    by (simp add: example_env_def)
  have b: "\<not> str_in ''credentials'' (''/home/u/.aws/'' @ ''credential'')"
    by simp
  have c: "\<not> str_in ''credentials'' []" by simp
  show ?thesis
    using saml_cache_file_path [where sha1_hexdigest = "\<lambda>u. ''0beec7b5''" and e = example_env
        and cfg = Configuration_init and u = "''https://idp.example.com/sso''"
        and pre = "''/home/u/.aws/''" and post = "[]", THEN conjunct2, THEN conjunct1]
      a b c
    by (simp add: example_env_def)
qed


lemma ini_parse_empty: "ini_parse ini_empty = ini_empty"
  by (simp add: ini_parse_def ini_empty_def fun_eq_iff)

lemma cp_read_missing: "files w p = None \<Longrightarrow> cp_read w p = Inr ini_empty"
  by (simp add: cp_read_def)

lemma cp_read_directory: "p \<in> dirs w \<Longrightarrow> cp_read w p = Inr ini_empty"
  by (simp add: cp_read_def)

lemma cp_read_fresh: "files w p = Some ini_empty \<Longrightarrow> cp_read w p = Inr ini_empty"
  by (simp add: cp_read_def ini_parse_def ini_empty_def fun_eq_iff)

lemma cp_read_cong:
  "files w' p = files w p \<Longrightarrow> opaque_reads w' = opaque_reads w \<Longrightarrow> (p \<in> dirs w') = (p \<in> dirs w) \<Longrightarrow>
     cp_read w' p = cp_read w p"
  by (simp add: cp_read_def split: option.splits layout.splits)

text \<open>One round of the loop of \<open>ensure_config_files_exist\<close>.\<close>

lemma ensure_files_Cons:
  "ensure_files (f # fs) w =
     (case (if \<not> os_path_exists w (os_path_dirname f) then os_mkdir (os_path_dirname f) w else Inr w) of
        Inl er \<Rightarrow> (Inl er, w)
      | Inr w1 \<Rightarrow>
          (case (if \<not> os_path_exists w1 f then touch f w1 else Inr w1) of
             Inl er \<Rightarrow> (Inl er, w1)
           | Inr w2 \<Rightarrow> ensure_files fs w2))"
  by (simp add: Let_def)

lemma mkdir_effect:
  "(if \<not> os_path_exists w d then os_mkdir d w else Inr w) = Inr w1 \<Longrightarrow>
     files w1 = files w \<and> readonly w1 = readonly w \<and> lock_log w1 = lock_log w
     \<and> opaque_reads w1 = opaque_reads w \<and> dirs w \<subseteq> dirs w1 \<and> os_path_exists w1 d
     \<and> (\<forall>p. p \<in> dirs w1 \<longrightarrow> p \<in> dirs w \<or> files w p = None)"
  by (auto simp: os_mkdir_def os_path_exists_def split: if_splits sum.splits)

lemma touch_effect:
  "(if \<not> os_path_exists w f then touch f w else Inr w) = Inr w2 \<Longrightarrow>
     dirs w2 = dirs w \<and> readonly w2 = readonly w \<and> lock_log w2 = lock_log w
     \<and> opaque_reads w2 = opaque_reads w \<and> os_path_exists w2 f
     \<and> (\<forall>p d. files w p = Some d \<longrightarrow> files w2 p = Some d)
     \<and> (\<forall>p. files w p = None \<longrightarrow> files w2 p = None \<or> files w2 p = Some ini_empty)"
  by (auto simp: touch_def os_path_exists_def split: if_splits sum.splits)

text \<open>
  What \<open>ensure_config_files_exist\<close> leaves, whether it returns or raises: a file that
  was there is untouched, a new file is empty, a new directory has a name that was
  not that of a file, and nothing else of the world changes.
\<close>

lemma ensure_files_frame:
  "lock_log (snd (ensure_files fs w)) = lock_log w
   \<and> readonly (snd (ensure_files fs w)) = readonly w
   \<and> opaque_reads (snd (ensure_files fs w)) = opaque_reads w
   \<and> dirs w \<subseteq> dirs (snd (ensure_files fs w))
   \<and> (\<forall>p d. files w p = Some d \<longrightarrow> files (snd (ensure_files fs w)) p = Some d)
   \<and> (\<forall>p. files w p = None \<longrightarrow> files (snd (ensure_files fs w)) p = None
                                  \<or> files (snd (ensure_files fs w)) p = Some ini_empty)
   \<and> (\<forall>p. p \<in> dirs (snd (ensure_files fs w)) \<longrightarrow> p \<in> dirs w \<or> files w p = None)"
proof (induction fs arbitrary: w)
  case Nil
  then show ?case by simp
next
  case (Cons f fs)
  let ?m = "if \<not> os_path_exists w (os_path_dirname f) then os_mkdir (os_path_dirname f) w else Inr w"
  show ?case
  proof (cases ?m)
    case (Inl er)
    then show ?thesis by (simp add: ensure_files_Cons del: ensure_files.simps)
  next
    case (Inr w1)
    note m = mkdir_effect [OF Inr]
    let ?t = "if \<not> os_path_exists w1 f then touch f w1 else Inr w1"
    show ?thesis
    proof (cases ?t)
      case (Inl er)
      then show ?thesis using Inr m by (simp add: ensure_files_Cons del: ensure_files.simps)
    next
      case t: (Inr w2)
      note tt = touch_effect [OF t]
      have step: "ensure_files (f # fs) w = ensure_files fs w2"
        using Inr t by (simp add: ensure_files_Cons del: ensure_files.simps)
      have a: "lock_log w2 = lock_log w" "readonly w2 = readonly w" "opaque_reads w2 = opaque_reads w"
        "dirs w \<subseteq> dirs w2"
        using m tt by auto
      have keep: "files w2 p = Some d" if "files w p = Some d" for p d
        using that m tt by simp
      have new: "files w2 p = None \<or> files w2 p = Some ini_empty" if "files w p = None" for p
        using that m tt by simp
      note ih = Cons.IH [of w2]
      have k2: "files (snd (ensure_files fs w2)) p = Some d" if "files w p = Some d" for p d
        using ih keep [OF that] by blast
      have n2: "files (snd (ensure_files fs w2)) p = None \<or> files (snd (ensure_files fs w2)) p = Some ini_empty"
        if "files w p = None" for p
        using new [OF that] ih by blast
      have d2: "p \<in> dirs w \<or> files w p = None" if "p \<in> dirs (snd (ensure_files fs w2))" for p
      proof -
        have "\<forall>p. p \<in> dirs (snd (ensure_files fs w2)) \<longrightarrow> p \<in> dirs w2 \<or> files w2 p = None"
          using ih by (elim conjE)
        then have "p \<in> dirs (snd (ensure_files fs w2)) \<longrightarrow> p \<in> dirs w2 \<or> files w2 p = None" ..
        from this that have "p \<in> dirs w2 \<or> files w2 p = None" by (rule mp)
        then show ?thesis
        proof
          assume "p \<in> dirs w2"
          then show ?thesis using m tt by simp
        next
          assume "files w2 p = None"
          then show ?thesis using keep [of p] by (cases "files w p") auto
        qed
      qed
      show ?thesis
        unfolding step using ih a k2 n2 d2 by (intro conjI allI impI) auto
    qed
  qed
qed

lemma cp_read_ensure_files: "cp_read (snd (ensure_files fs w)) p = cp_read w p"
proof (cases "files w p")
  case None
  then have "files (snd (ensure_files fs w)) p = None \<or> files (snd (ensure_files fs w)) p = Some ini_empty"
    using ensure_files_frame [of fs w] by blast
  then show ?thesis
    using None by (auto simp: cp_read_missing cp_read_fresh)
next
  case (Some d)
  then have f: "files (snd (ensure_files fs w)) p = Some d"
    using ensure_files_frame [of fs w] by blast
  have "p \<in> dirs (snd (ensure_files fs w)) \<longrightarrow> p \<in> dirs w"
    using Some ensure_files_frame [of fs w] by auto
  moreover have "p \<in> dirs w \<longrightarrow> p \<in> dirs (snd (ensure_files fs w))"
    using ensure_files_frame [of fs w] by auto
  ultimately have "(p \<in> dirs (snd (ensure_files fs w))) = (p \<in> dirs w)" by blast
  then show ?thesis
    using Some f ensure_files_frame [of fs w] by (intro cp_read_cong) simp_all
qed

lemma ensure_files_exists_mono:
  "os_path_exists w p \<Longrightarrow> os_path_exists (snd (ensure_files fs w)) p"
  using ensure_files_frame [of fs w] by (auto simp: os_path_exists_def)

text \<open>When it returns, every file named exists, and so does its directory.\<close>

lemma ensure_files_exist:
  "fst (ensure_files fs w) = Inr () \<Longrightarrow> f \<in> set fs \<Longrightarrow>
     os_path_exists (snd (ensure_files fs w)) f
     \<and> os_path_exists (snd (ensure_files fs w)) (os_path_dirname f)"
proof (induction fs arbitrary: w)
  case Nil
  then show ?case by simp
next
  case (Cons g fs)
  let ?m = "if \<not> os_path_exists w (os_path_dirname g) then os_mkdir (os_path_dirname g) w else Inr w"
  obtain w1 where m: "?m = Inr w1"
    using Cons.prems(1) by (cases ?m) (simp_all add: ensure_files_Cons del: ensure_files.simps)
  let ?t = "if \<not> os_path_exists w1 g then touch g w1 else Inr w1"
  obtain w2 where t: "?t = Inr w2"
    using Cons.prems(1) m by (cases ?t) (simp_all add: ensure_files_Cons del: ensure_files.simps)
  have step: "ensure_files (g # fs) w = ensure_files fs w2"
    using m t by (simp add: ensure_files_Cons del: ensure_files.simps)
  show ?case
  proof (cases "f = g")
    case True
    have "os_path_exists w2 g \<and> os_path_exists w2 (os_path_dirname g)"
      using mkdir_effect [OF m] touch_effect [OF t] by (auto simp: os_path_exists_def)
    then show ?thesis unfolding step True by (simp add: ensure_files_exists_mono)
  next
    case False
    with Cons.prems have "f \<in> set fs" by simp
    moreover have "fst (ensure_files fs w2) = Inr ()" using Cons.prems(1) step by simp
    ultimately show ?thesis unfolding step by (intro Cons.IH)
  qed
qed

text \<open>Where every file and its directory exist, nothing is done.\<close>

lemma ensure_files_nothing:
  "\<forall>f \<in> set fs. os_path_exists w f \<and> os_path_exists w (os_path_dirname f) \<Longrightarrow>
     ensure_files fs w = (Inr (), w)"
  by (induction fs) (simp_all add: Let_def)



section \<open>Calls that change no attribute\<close>

lemma dirname_example:
  "os_path_dirname ''/home/u/.aws/config'' = ''/home/u/.aws''"
  "os_path_dirname ''/home/u/.aws/credentials'' = ''/home/u/.aws''"
  "os_path_dirname ''/home/u/.aws'' = ''/home/u''"
  "os_path_dirname ''config'' = []"
  "os_path_dirname ''credentials'' = []"
  by (simp_all add: os_path_dirname_def)

lemma ensure_empty_world:
  "ensure_config_files_exist example_env empty_world =
     (Inr (), empty_world\<lparr> dirs := {''/home/u/.aws'', ''/home/u''},
        files := [''/home/u/.aws/config'' \<mapsto> ini_empty, ''/home/u/.aws/credentials'' \<mapsto> ini_empty] \<rparr>)"
  by (simp add: ensure_config_files_exist_def example_env_def empty_world_def dirname_example
        os_path_exists_def os_mkdir_def touch_def enter_in_def Let_def)

lemma ensure_bare_world:
  "ensure_config_files_exist bare_env bare_world = (Inl FileNotFoundError, bare_world)"
  by (simp add: ensure_config_files_exist_def bare_env_def dirname_example
        os_path_exists_def os_mkdir_def Let_def)

text \<open>
  C9. \<open>write\<close> with the profile absent fails, and before any lock is acquired and any
  section is written: every file reads as it did before. The failure is the assertion
  when \<open>ensure_config_files_exist\<close> returns, and then the two files and their
  directories exist, created by the failing call where they were missing; when
  \<open>ensure_config_files_exist\<close> raises, the failure is its exception.
\<close>

theorem write_without_profile:
  "write_cfg e (cfg\<lparr>profile := PNone\<rparr>) amazon_object w =
     (case fst (ensure_config_files_exist e w) of
        Inl er \<Rightarrow> Inl er
      | Inr u \<Rightarrow> Inl (AssertionError ''Can not store config/credentials if the AWS_PROFILE is None.''),
      snd (ensure_config_files_exist e w))
   \<and> lock_log (snd (ensure_config_files_exist e w)) = lock_log w
   \<and> (\<forall>p. cp_read (snd (ensure_config_files_exist e w)) p = cp_read w p)
   \<and> (\<forall>p d. files w p = Some d \<longrightarrow> files (snd (ensure_config_files_exist e w)) p = Some d)
   \<and> (fst (ensure_config_files_exist e w) = Inr () \<longrightarrow>
        os_path_exists (snd (ensure_config_files_exist e w)) (os_path_dirname (config_file e))
        \<and> os_path_exists (snd (ensure_config_files_exist e w)) (config_file e)
        \<and> os_path_exists (snd (ensure_config_files_exist e w)) (os_path_dirname (credentials_file e))
        \<and> os_path_exists (snd (ensure_config_files_exist e w)) (credentials_file e))"
proof (intro conjI allI impI)
  show "write_cfg e (cfg\<lparr>profile := PNone\<rparr>) amazon_object w =
     (case fst (ensure_config_files_exist e w) of
        Inl er \<Rightarrow> Inl er
      | Inr u \<Rightarrow> Inl (AssertionError ''Can not store config/credentials if the AWS_PROFILE is None.''),
      snd (ensure_config_files_exist e w))"
    by (cases "ensure_config_files_exist e w") (simp add: write_cfg_def split: sum.splits)
next
  show "lock_log (snd (ensure_config_files_exist e w)) = lock_log w"
    using ensure_files_frame [of "[config_file e, credentials_file e]" w]
    by (simp add: ensure_config_files_exist_def del: ensure_files.simps)
next
  fix p
  show "cp_read (snd (ensure_config_files_exist e w)) p = cp_read w p"
    by (simp add: ensure_config_files_exist_def cp_read_ensure_files del: ensure_files.simps)
next
  fix p d
  assume "files w p = Some d"
  then show "files (snd (ensure_config_files_exist e w)) p = Some d"
    using ensure_files_frame [of "[config_file e, credentials_file e]" w]
    by (simp add: ensure_config_files_exist_def del: ensure_files.simps)
next
  assume ok: "fst (ensure_config_files_exist e w) = Inr ()"
  then have ok': "fst (ensure_files [config_file e, credentials_file e] w) = Inr ()"
    by (simp add: ensure_config_files_exist_def del: ensure_files.simps)
  note a = ensure_files_exist [OF ok', of "config_file e"]
    and b = ensure_files_exist [OF ok', of "credentials_file e"]
  show "os_path_exists (snd (ensure_config_files_exist e w)) (os_path_dirname (config_file e))"
    using a by (simp add: ensure_config_files_exist_def del: ensure_files.simps)
  show "os_path_exists (snd (ensure_config_files_exist e w)) (config_file e)"
    using a by (simp add: ensure_config_files_exist_def del: ensure_files.simps)
  show "os_path_exists (snd (ensure_config_files_exist e w)) (os_path_dirname (credentials_file e))"
    using b by (simp add: ensure_config_files_exist_def del: ensure_files.simps)
  show "os_path_exists (snd (ensure_config_files_exist e w)) (credentials_file e)"
    using b by (simp add: ensure_config_files_exist_def del: ensure_files.simps)
qed

theorem write_without_profile_witness:
  "files empty_world ''/home/u/.aws/config'' = None
   \<and> ''/home/u/.aws'' \<notin> dirs empty_world
   \<and> fst (ensure_config_files_exist example_env empty_world) = Inr ()
   \<and> fst (write_cfg example_env (Configuration_init\<lparr>profile := PNone\<rparr>) None empty_world) =
        Inl (AssertionError ''Can not store config/credentials if the AWS_PROFILE is None.'')
   \<and> lock_log (snd (write_cfg example_env (Configuration_init\<lparr>profile := PNone\<rparr>) None empty_world)) = []
   \<and> files (snd (write_cfg example_env (Configuration_init\<lparr>profile := PNone\<rparr>) None empty_world))
        ''/home/u/.aws/config'' = Some ini_empty
   \<and> files (snd (write_cfg example_env (Configuration_init\<lparr>profile := PNone\<rparr>) None empty_world))
        ''/home/u/.aws/credentials'' = Some ini_empty
   \<and> os_path_exists (snd (write_cfg example_env (Configuration_init\<lparr>profile := PNone\<rparr>) None empty_world))
        ''/home/u/.aws''"
proof -
  note t = write_without_profile [of example_env Configuration_init None empty_world]
  have r: "write_cfg example_env (Configuration_init\<lparr>profile := PNone\<rparr>) None empty_world =
     (Inl (AssertionError ''Can not store config/credentials if the AWS_PROFILE is None.''),
      snd (ensure_config_files_exist example_env empty_world))"
    using t [THEN conjunct1] by (simp add: ensure_empty_world)
  have ex: "os_path_exists (snd (ensure_config_files_exist example_env empty_world))
              (os_path_dirname (config_file example_env))"
    using t [THEN conjunct2, THEN conjunct2, THEN conjunct2, THEN conjunct2]
    by (simp add: ensure_empty_world)
  have d: "os_path_dirname (config_file example_env) = ''/home/u/.aws''"
    by (simp add: example_env_def dirname_example)
  show ?thesis
    using ex unfolding r d
    by (simp add: ensure_empty_world) (simp add: empty_world_def)
qed

text \<open>
  With files named without a directory, \<open>ensure_config_files_exist\<close> asks \<open>os.mkdir\<close>
  for the directory with the empty name, and \<open>write\<close> ends with \<open>FileNotFoundError\<close>:
  the assertion on the profile is not reached.
\<close>

theorem write_without_profile_counterexample:
  "profile (Configuration_init\<lparr>profile := PNone\<rparr>) = PNone
   \<and> files bare_world (config_file bare_env) \<noteq> None
   \<and> files bare_world (credentials_file bare_env) \<noteq> None
   \<and> fst (write_cfg bare_env (Configuration_init\<lparr>profile := PNone\<rparr>) None bare_world) =
        Inl FileNotFoundError
   \<and> fst (write_cfg bare_env (Configuration_init\<lparr>profile := PNone\<rparr>) None bare_world) \<noteq>
        Inl (AssertionError ''Can not store config/credentials if the AWS_PROFILE is None.'')"
  by (simp add: write_cfg_def ensure_bare_world) (simp add: bare_world_def bare_env_def)

text \<open>
  C10. When the config file has no section named \<open>config_profile(profile)\<close>, \<open>read\<close>
  leaves every attribute of the object as it was, the profile included. The call
  returns unless \<open>ensure_config_files_exist\<close> or the parser raises.
\<close>

theorem read_missing_section:
  assumes "\<not> has_profile_section e w prof"
  shows "read e prof cfg w =
     (case fst (ensure_config_files_exist e w) of
        Inl er \<Rightarrow> Inl er
      | Inr u \<Rightarrow> (case cp_read w (config_file e) of Inl er \<Rightarrow> Inl er | Inr p \<Rightarrow> Inr ()),
      cfg, snd (ensure_config_files_exist e w))"
proof (cases "ensure_config_files_exist e w")
  case (Pair r w1)
  have rd: "cp_read w1 (config_file e) = cp_read w (config_file e)"
    using Pair cp_read_ensure_files [of "[config_file e, credentials_file e]" w "config_file e"]
    by (simp add: ensure_config_files_exist_def del: ensure_files.simps)
  show ?thesis
  proof (cases r)
    case (Inl er)
    then show ?thesis using Pair by (simp add: read_def)
  next
    case (Inr u)
    show ?thesis
    proof (cases "cp_read w (config_file e)")
      case cl: (Inl er)
      then show ?thesis using Pair Inr rd by (simp add: read_def Let_def)
    next
      case cr: (Inr p)
      then have "\<not> cp_has_section p (config_profile prof)"
        using assms by (simp add: has_profile_section_def)
      then show ?thesis using Pair Inr rd cr by (simp add: read_def Let_def)
    qed
  qed
qed

lemma config_profile_work: "config_profile (PStr ''work'') = PStr ''profile work''"
  by code_simp

lemma config_profile_other: "config_profile (PStr ''other'') = PStr ''profile other''"
  by code_simp

lemma ensure_other_world:
  "ensure_config_files_exist example_env other_world =
     (Inr (), other_world\<lparr> files := (files other_world)(''/home/u/.aws/credentials'' \<mapsto> ini_empty) \<rparr>)"
  by (simp add: ensure_config_files_exist_def example_env_def other_world_def dirname_example
        os_path_exists_def os_mkdir_def touch_def enter_in_def Let_def)

theorem read_missing_section_witness:
  "\<not> has_profile_section example_env other_world (PStr ''work'')
   \<and> has_profile_section example_env other_world (PStr ''other'')
   \<and> fst (read example_env (PStr ''work'') Configuration_init other_world) = Inr ()
   \<and> fst (snd (read example_env (PStr ''work'') Configuration_init other_world)) = Configuration_init"
proof -
  have a: "\<not> has_profile_section example_env other_world (PStr ''work'')"
    by (simp add: has_profile_section_def config_profile_work cp_has_section_def cp_read_def
          other_world_def example_env_def ini_parse_def)
  have b: "has_profile_section example_env other_world (PStr ''other'')"
    by (simp add: has_profile_section_def config_profile_other cp_has_section_def cp_read_def
          other_world_def example_env_def ini_parse_def)
  have c: "cp_read other_world (config_file example_env) \<noteq> Inl er" for er
    by (simp add: cp_read_def other_world_def example_env_def)
  show ?thesis
    using read_missing_section [OF a, of Configuration_init] a b c
    by (simp add: ensure_other_world split: sum.splits)
qed



section \<open>Writing the profile\<close>

lemma lower_option_names:
  "lower ''region'' = ''region''"
  "lower ''asa.ask_role'' = ''asa.ask_role''"
  "lower ''asa.duration'' = ''asa.duration''"
  "lower ''asa.login_url'' = ''asa.login_url''"
  "lower ''asa.role_arn'' = ''asa.role_arn''"
  "lower ''account'' = ''account''"
  "lower ''aws_access_key_id'' = ''aws_access_key_id''"
  "lower ''aws_secret_access_key'' = ''aws_secret_access_key''"
  "lower ''aws_security_token'' = ''aws_security_token''"
  "lower ''aws_session_expiration'' = ''aws_session_expiration''"
  "lower ''aws_session_token'' = ''aws_session_token''"
  by (simp_all add: lower_def to_lower_def)

text \<open>The options and the layout a run of \<open>set\<close> statements leaves.\<close>

lemma cp_set_all_section:
  assumes "truthy section" and "section \<noteq> PStr ''DEFAULT''"
    and "ini_sections p (py_str section) = Some m"
  shows "cp_set_all p section kvs =
           Inr (p\<lparr>ini_sections := (ini_sections p)(py_str section \<mapsto>
                      foldl (\<lambda>m (k, v). m(lower k \<mapsto> py_str v)) m kvs),
                   ini_layout := foldl (\<lambda>l (k, v). worse l (value_layout (py_str v)))
                                   (ini_layout p) kvs\<rparr>)"
  using assms(3)
proof (induction kvs arbitrary: p m)
  case Nil
  then show ?case by (simp add: fun_upd_idem)
next
  case (Cons kv kvs)
  obtain k v where kv: "kv = (k, v)" by (cases kv)
  let ?p = "p\<lparr>ini_sections := (ini_sections p)(py_str section \<mapsto> m(lower k \<mapsto> py_str v)),
               ini_layout := worse (ini_layout p) (value_layout (py_str v))\<rparr>"
  have one: "cp_set p section k v = Inr ?p"
    using assms(1,2) Cons.prems by (simp add: cp_set_def)
  have sec: "ini_sections ?p (py_str section) = Some (m(lower k \<mapsto> py_str v))" by simp
  have "cp_set_all p section (kv # kvs) = cp_set_all ?p section kvs"
    by (simp add: kv one)
  also have "\<dots> = Inr (?p\<lparr>ini_sections := (ini_sections ?p)(py_str section \<mapsto>
                  foldl (\<lambda>m (k, v). m(lower k \<mapsto> py_str v)) (m(lower k \<mapsto> py_str v)) kvs),
                ini_layout := foldl (\<lambda>l (k, v). worse l (value_layout (py_str v)))
                                   (ini_layout ?p) kvs\<rparr>)"
    by (rule Cons.IH [OF sec])
  also have "\<dots> = Inr (p\<lparr>ini_sections := (ini_sections p)(py_str section \<mapsto>
                  foldl (\<lambda>m (k, v). m(lower k \<mapsto> py_str v)) (m(lower k \<mapsto> py_str v)) kvs),
                ini_layout := foldl (\<lambda>l (k, v). worse l (value_layout (py_str v)))
                                   (worse (ini_layout p) (value_layout (py_str v))) kvs\<rparr>)"
    by simp
  finally show ?case by (simp only: kv foldl_Cons prod.case)
qed

lemma cp_set_all_defaults:
  assumes "\<not> truthy section \<or> section = PStr ''DEFAULT''"
  shows "cp_set_all p section kvs =
           Inr (p\<lparr>ini_defaults := foldl (\<lambda>m (k, v). m(lower k \<mapsto> py_str v))
                                      (ini_defaults p) kvs,
                   ini_layout := foldl (\<lambda>l (k, v). worse l (value_layout (py_str v)))
                                   (ini_layout p) kvs\<rparr>)"
proof (induction kvs arbitrary: p)
  case Nil
  then show ?case by simp
next
  case (Cons kv kvs)
  obtain k v where kv: "kv = (k, v)" by (cases kv)
  let ?p = "p\<lparr>ini_defaults := (ini_defaults p)(lower k \<mapsto> py_str v),
               ini_layout := worse (ini_layout p) (value_layout (py_str v))\<rparr>"
  have one: "cp_set p section k v = Inr ?p"
    using assms by (auto simp: cp_set_def)
  have "cp_set_all p section (kv # kvs) = cp_set_all ?p section kvs"
    by (simp add: kv one)
  also have "\<dots> = Inr (p\<lparr>ini_defaults := foldl (\<lambda>m (k, v). m(lower k \<mapsto> py_str v))
                                      ((ini_defaults p)(lower k \<mapsto> py_str v)) kvs,
                   ini_layout := foldl (\<lambda>l (k, v). worse l (value_layout (py_str v)))
                                   (worse (ini_layout p) (value_layout (py_str v))) kvs\<rparr>)"
    unfolding Cons.IH by simp
  finally show ?case by (simp only: kv foldl_Cons prod.case)
qed

text \<open>The locks are no part of what the two bodies do, and no file depends on them.\<close>

lemma write_config_section_lock_log:
  "lock_log (snd (write_config_section e cfg w)) = lock_log w"
  by (simp add: write_config_section_def cp_write_def Let_def split: sum.splits)

lemma write_credentials_section_lock_log:
  "lock_log (snd (write_credentials_section e cfg a w)) = lock_log w"
  by (simp add: write_credentials_section_def cp_write_def Let_def split: sum.splits)

lemma raw_value_lock [simp]:
  "raw_value (lock_acquire l w) = raw_value w"
  "raw_value (lock_release l w) = raw_value w"
  by (simp_all add: raw_value_def lock_acquire_def lock_release_def fun_eq_iff)

lemma world_lock [simp]:
  "dirs (lock_acquire l w) = dirs w" "dirs (lock_release l w) = dirs w"
  "files (lock_acquire l w) = files w" "files (lock_release l w) = files w"
  "readonly (lock_acquire l w) = readonly w" "readonly (lock_release l w) = readonly w"
  "opaque_reads (lock_acquire l w) = opaque_reads w" "opaque_reads (lock_release l w) = opaque_reads w"
  by (simp_all add: lock_acquire_def lock_release_def)

lemma cp_read_lock [simp]:
  "cp_read (lock_acquire l w) = cp_read w"
  "cp_read (lock_release l w) = cp_read w"
  by (rule ext, rule cp_read_cong, simp_all)+

text \<open>The world \<open>write\<close> leaves, by the outcome of \<open>ensure_config_files_exist\<close>.\<close>

lemma write_cfg_ensure_raises:
  assumes "ensure_config_files_exist e w = (Inl er, w1)"
  shows "write_cfg e cfg amazon_object w = (Inl er, w1)"
  using assms by (simp add: write_cfg_def)

lemma write_cfg_with_record:
  assumes "ensure_config_files_exist e w = (Inr (), w1)" and "profile cfg \<noteq> PNone"
  shows "write_cfg e cfg (Some a) w =
     (let w2 = lock_acquire (lock_path (config_file e)) w1;
          c = write_config_section e cfg w2;
          w5 = lock_acquire (lock_path (credentials_file e))
                 (lock_release (lock_path (config_file e)) (snd c));
          k = write_credentials_section e cfg a w5
      in (case fst k of Inl er \<Rightarrow> Inl er | Inr u \<Rightarrow> fst c,
          lock_release (lock_path (credentials_file e)) (snd k)))"
  using assms by (simp add: write_cfg_def Let_def split: prod.splits sum.splits)

lemma write_cfg_without_record:
  assumes "ensure_config_files_exist e w = (Inr (), w1)" and "profile cfg \<noteq> PNone"
  shows "write_cfg e cfg None w =
     (let w2 = lock_acquire (lock_path (config_file e)) w1;
          c = write_config_section e cfg w2
      in (fst c, lock_release (lock_path (config_file e)) (snd c)))"
  using assms by (simp add: write_cfg_def Let_def split: prod.splits sum.splits)

lemma ensure_lock_log:
  "lock_log (snd (ensure_config_files_exist e w)) = lock_log w"
  using ensure_files_frame [of "[config_file e, credentials_file e]" w]
  by (simp add: ensure_config_files_exist_def del: ensure_files.simps)

lemma ensure_readonly:
  "readonly (snd (ensure_config_files_exist e w)) = readonly w"
  using ensure_files_frame [of "[config_file e, credentials_file e]" w]
  by (simp add: ensure_config_files_exist_def del: ensure_files.simps)

lemma cp_read_ensure:
  "cp_read (snd (ensure_config_files_exist e w)) p = cp_read w p"
  by (simp add: ensure_config_files_exist_def cp_read_ensure_files del: ensure_files.simps)

lemma write_cfg_lock_log:
  assumes "profile cfg \<noteq> PNone"
  shows "lock_log (snd (write_cfg e cfg (Some a) w)) =
     lock_log w @
       (case fst (ensure_config_files_exist e w) of
          Inl er \<Rightarrow> []
        | Inr u \<Rightarrow> [Acquire (lock_path (config_file e)), Release (lock_path (config_file e)),
                     Acquire (lock_path (credentials_file e)), Release (lock_path (credentials_file e))])"
proof (cases "ensure_config_files_exist e w")
  case (Pair r w1)
  have l1: "lock_log w1 = lock_log w"
    using ensure_lock_log [of e w] Pair by simp
  show ?thesis
  proof (cases r)
    case (Inl er)
    then show ?thesis
      using Pair l1 by (simp add: write_cfg_def)
  next
    case (Inr u)
    then have p: "ensure_config_files_exist e w = (Inr (), w1)" using Pair by simp
    show ?thesis
      unfolding write_cfg_with_record [OF p assms]
      by (simp add: p Let_def l1 lock_release_def lock_acquire_def
            write_credentials_section_lock_log write_config_section_lock_log)
  qed
qed

lemma config_profile_str:
  "\<exists>s. config_profile (PStr name) = PStr s \<and> s \<noteq> [] \<and> (s = ''DEFAULT'' \<longrightarrow> name = ''DEFAULT'')"
  by (auto simp: config_profile_def lower_def)

text \<open>
  The config part fails when its file cannot be written, if not before: with the
  exception of the parser, or else with that of \<open>open\<close>.
\<close>

lemma write_config_section_readonly:
  assumes "config_file e \<in> readonly w" and "profile cfg = PStr name" and "name \<noteq> ''DEFAULT''"
  shows "write_config_section e cfg w =
     (case cp_read w (config_file e) of
        Inl er \<Rightarrow> Inl er
      | Inr p \<Rightarrow> if config_file e \<in> dirs w then Inl IsADirectoryError else Inl PermissionError,
      w)"
proof (cases "cp_read w (config_file e)")
  case (Inl er)
  then show ?thesis by (simp add: write_config_section_def Let_def)
next
  case (Inr p0)
  obtain s where s: "config_profile (PStr name) = PStr s" "s \<noteq> []" "s \<noteq> ''DEFAULT''"
    using config_profile_str [of name] assms(3) by auto
  let ?kvs = "[(''region'', region cfg), (''asa.ask_role'', ask_role cfg),
               (''asa.duration'', duration cfg), (''asa.login_url'', login_url cfg),
               (''asa.role_arn'', role_arn cfg)]"
  obtain p1 m where p1: "(if \<not> cp_has_section p0 (PStr s) then cp_add_section p0 (PStr s) else Inr p0) = Inr p1"
    and m: "ini_sections p1 s = Some m"
    using s by (cases "cp_has_section p0 (PStr s)") (auto simp: cp_add_section_def cp_has_section_def)
  have "\<exists>p2. cp_set_all p1 (PStr s) ?kvs = Inr p2"
    using cp_set_all_section [of "PStr s" p1 m ?kvs] s m by simp
  then obtain p2 where p2: "cp_set_all p1 (PStr s) ?kvs = Inr p2" ..
  have "write_config_section e cfg w = cp_write (config_file e) p2 w"
    by (simp only: write_config_section_def Let_def assms(2) s Inr p1 p2 sum.case)
  then show ?thesis
    using assms(1) Inr by (simp add: cp_write_def)
qed

text \<open>
  The credentials part, when its file is read and can be written, stores the five
  options.
\<close>

lemma write_credentials_section_stores:
  assumes "credentials_file e \<notin> readonly w" and "credentials_file e \<notin> dirs w"
    and "parses w (credentials_file e)"
    and "profile cfg = PStr name" and "name \<noteq> []" and "name \<noteq> ''DEFAULT''"
  shows "fst (write_credentials_section e cfg a w) = Inr ()
     \<and> raw_value (snd (write_credentials_section e cfg a w)) (credentials_file e) name ''aws_access_key_id''
          = Some (access_key_id a)
     \<and> raw_value (snd (write_credentials_section e cfg a w)) (credentials_file e) name ''aws_secret_access_key''
          = Some (secret_access_key a)
     \<and> raw_value (snd (write_credentials_section e cfg a w)) (credentials_file e) name ''aws_security_token''
          = Some (session_token a)
     \<and> raw_value (snd (write_credentials_section e cfg a w)) (credentials_file e) name ''aws_session_expiration''
          = Some (expiration_isoformat a)
     \<and> raw_value (snd (write_credentials_section e cfg a w)) (credentials_file e) name ''aws_session_token''
          = Some (session_token a)"
proof -
  obtain p0 where p0: "cp_read w (credentials_file e) = Inr p0"
    using assms(3) by (cases "cp_read w (credentials_file e)") (simp_all add: parses_def)
  let ?kvs = "[(''aws_access_key_id'', PStr (access_key_id a)),
               (''aws_secret_access_key'', PStr (secret_access_key a)),
               (''aws_security_token'', PStr (session_token a)),
               (''aws_session_expiration'', PStr (expiration_isoformat a)),
               (''aws_session_token'', PStr (session_token a))]"
  obtain p1 m where p1: "(if \<not> cp_has_section p0 (PStr name) then cp_add_section p0 (PStr name) else Inr p0) = Inr p1"
    and m: "ini_sections p1 name = Some m"
    using assms(6) by (cases "cp_has_section p0 (PStr name)") (auto simp: cp_add_section_def cp_has_section_def)
  let ?p2 = "p1\<lparr>ini_sections := (ini_sections p1)(name \<mapsto>
                  foldl (\<lambda>m (k, v). m(lower k \<mapsto> py_str v)) m ?kvs),
                ini_layout := foldl (\<lambda>l (k, v). worse l (value_layout (py_str v)))
                                (ini_layout p1) ?kvs\<rparr>"
  have p2: "cp_set_all p1 (PStr name) ?kvs = Inr ?p2"
    using cp_set_all_section [of "PStr name" p1 m ?kvs] assms(5,6) m by simp
  have "write_credentials_section e cfg a w = cp_write (credentials_file e) ?p2 w"
    by (simp only: write_credentials_section_def Let_def assms(4) p0 p1 p2 sum.case)
  then show ?thesis
    using assms(1,2)
    by (simp add: cp_write_def raw_value_def lower_option_names)
qed

text \<open>
  C6. In a call of \<open>write\<close> with a credential record (and a profile), once
  \<open>ensure_config_files_exist\<close> has returned, the lock of the config file is acquired and
  released, and after that the lock of the credentials file is acquired and released,
  whether the config part raised or not; when \<open>ensure_config_files_exist\<close> raises, no
  lock is touched. When the config part fails because its file cannot be written,
  while the credentials file is read and can be written, the five credential options
  are stored all the same, and the call ends with the exception of the config part.
\<close>

theorem write_two_critical_sections:
  assumes "profile cfg \<noteq> PNone"
  shows "lock_log (snd (write_cfg e cfg (Some a) w)) =
           lock_log w @
             (case fst (ensure_config_files_exist e w) of
                Inl er \<Rightarrow> []
              | Inr u \<Rightarrow> [Acquire (lock_path (config_file e)), Release (lock_path (config_file e)),
                           Acquire (lock_path (credentials_file e)),
                           Release (lock_path (credentials_file e))])
         \<and> (fst (ensure_config_files_exist e w) = Inr ()
              \<and> config_file e \<in> readonly w \<and> credentials_file e \<notin> readonly w
              \<and> credentials_file e \<notin> dirs (snd (ensure_config_files_exist e w))
              \<and> parses w (credentials_file e)
              \<and> profile cfg = PStr name \<and> name \<noteq> [] \<and> name \<noteq> ''DEFAULT'' \<longrightarrow>
            fst (write_cfg e cfg (Some a) w) =
              (case cp_read w (config_file e) of
                 Inl er \<Rightarrow> Inl er
               | Inr p \<Rightarrow> if config_file e \<in> dirs (snd (ensure_config_files_exist e w))
                           then Inl IsADirectoryError else Inl PermissionError)
            \<and> raw_value (snd (write_cfg e cfg (Some a) w)) (credentials_file e) name
                 ''aws_access_key_id'' = Some (access_key_id a)
            \<and> raw_value (snd (write_cfg e cfg (Some a) w)) (credentials_file e) name
                 ''aws_secret_access_key'' = Some (secret_access_key a)
            \<and> raw_value (snd (write_cfg e cfg (Some a) w)) (credentials_file e) name
                 ''aws_security_token'' = Some (session_token a)
            \<and> raw_value (snd (write_cfg e cfg (Some a) w)) (credentials_file e) name
                 ''aws_session_expiration'' = Some (expiration_isoformat a)
            \<and> raw_value (snd (write_cfg e cfg (Some a) w)) (credentials_file e) name
                 ''aws_session_token'' = Some (session_token a))"
proof (rule conjI)
  show "lock_log (snd (write_cfg e cfg (Some a) w)) =
           lock_log w @
             (case fst (ensure_config_files_exist e w) of
                Inl er \<Rightarrow> []
              | Inr u \<Rightarrow> [Acquire (lock_path (config_file e)), Release (lock_path (config_file e)),
                           Acquire (lock_path (credentials_file e)),
                           Release (lock_path (credentials_file e))])"
    by (rule write_cfg_lock_log [OF assms])
next
  let ?w1 = "snd (ensure_config_files_exist e w)"
  show "fst (ensure_config_files_exist e w) = Inr ()
              \<and> config_file e \<in> readonly w \<and> credentials_file e \<notin> readonly w
              \<and> credentials_file e \<notin> dirs ?w1
              \<and> parses w (credentials_file e)
              \<and> profile cfg = PStr name \<and> name \<noteq> [] \<and> name \<noteq> ''DEFAULT'' \<longrightarrow>
            fst (write_cfg e cfg (Some a) w) =
              (case cp_read w (config_file e) of
                 Inl er \<Rightarrow> Inl er
               | Inr p \<Rightarrow> if config_file e \<in> dirs ?w1
                           then Inl IsADirectoryError else Inl PermissionError)
            \<and> raw_value (snd (write_cfg e cfg (Some a) w)) (credentials_file e) name
                 ''aws_access_key_id'' = Some (access_key_id a)
            \<and> raw_value (snd (write_cfg e cfg (Some a) w)) (credentials_file e) name
                 ''aws_secret_access_key'' = Some (secret_access_key a)
            \<and> raw_value (snd (write_cfg e cfg (Some a) w)) (credentials_file e) name
                 ''aws_security_token'' = Some (session_token a)
            \<and> raw_value (snd (write_cfg e cfg (Some a) w)) (credentials_file e) name
                 ''aws_session_expiration'' = Some (expiration_isoformat a)
            \<and> raw_value (snd (write_cfg e cfg (Some a) w)) (credentials_file e) name
                 ''aws_session_token'' = Some (session_token a)"
  proof (rule impI)
    assume h: "fst (ensure_config_files_exist e w) = Inr ()
              \<and> config_file e \<in> readonly w \<and> credentials_file e \<notin> readonly w
              \<and> credentials_file e \<notin> dirs ?w1
              \<and> parses w (credentials_file e)
              \<and> profile cfg = PStr name \<and> name \<noteq> [] \<and> name \<noteq> ''DEFAULT''"
    have ens: "ensure_config_files_exist e w = (Inr (), ?w1)"
      using h by (cases "ensure_config_files_exist e w") simp
    let ?w2 = "lock_acquire (lock_path (config_file e)) ?w1"
    let ?err = "case cp_read w (config_file e) of
                 Inl er \<Rightarrow> Inl er
               | Inr p \<Rightarrow> if config_file e \<in> dirs ?w1
                           then Inl IsADirectoryError else Inl PermissionError"
    have c: "write_config_section e cfg ?w2 = (?err, ?w2)"
      using write_config_section_readonly [of e ?w2 cfg name] h
      by (simp add: ensure_readonly cp_read_ensure)
    have err: "?err \<noteq> Inr ()"
      by (simp split: sum.splits)
    let ?w5 = "lock_acquire (lock_path (credentials_file e)) (lock_release (lock_path (config_file e)) ?w2)"
    let ?k = "write_credentials_section e cfg a ?w5"
    have pk: "parses ?w5 (credentials_file e)"
      using h by (simp add: parses_def cp_read_ensure)
    have k: "fst ?k = Inr ()
       \<and> raw_value (snd ?k) (credentials_file e) name ''aws_access_key_id'' = Some (access_key_id a)
       \<and> raw_value (snd ?k) (credentials_file e) name ''aws_secret_access_key'' = Some (secret_access_key a)
       \<and> raw_value (snd ?k) (credentials_file e) name ''aws_security_token'' = Some (session_token a)
       \<and> raw_value (snd ?k) (credentials_file e) name ''aws_session_expiration'' = Some (expiration_isoformat a)
       \<and> raw_value (snd ?k) (credentials_file e) name ''aws_session_token'' = Some (session_token a)"
      using h pk by (intro write_credentials_section_stores) (simp_all add: ensure_readonly)
    have res: "write_cfg e cfg (Some a) w = (?err, lock_release (lock_path (credentials_file e)) (snd ?k))"
      unfolding write_cfg_with_record [OF ens assms]
      using k by (simp add: Let_def c)
    show "fst (write_cfg e cfg (Some a) w) = ?err
            \<and> raw_value (snd (write_cfg e cfg (Some a) w)) (credentials_file e) name
                 ''aws_access_key_id'' = Some (access_key_id a)
            \<and> raw_value (snd (write_cfg e cfg (Some a) w)) (credentials_file e) name
                 ''aws_secret_access_key'' = Some (secret_access_key a)
            \<and> raw_value (snd (write_cfg e cfg (Some a) w)) (credentials_file e) name
                 ''aws_security_token'' = Some (session_token a)
            \<and> raw_value (snd (write_cfg e cfg (Some a) w)) (credentials_file e) name
                 ''aws_session_expiration'' = Some (expiration_isoformat a)
            \<and> raw_value (snd (write_cfg e cfg (Some a) w)) (credentials_file e) name
                 ''aws_session_token'' = Some (session_token a)"
      unfolding res using k by simp
  qed
qed

lemma ensure_readonly_world:
  "ensure_config_files_exist example_env readonly_world =
     (Inr (), readonly_world\<lparr> files := (files readonly_world)(''/home/u/.aws/credentials'' \<mapsto> ini_empty) \<rparr>)"
  by (simp add: ensure_config_files_exist_def example_env_def readonly_world_def dirname_example
        os_path_exists_def os_mkdir_def touch_def enter_in_def Let_def)

theorem write_two_critical_sections_witness:
  "profile Configuration_init \<noteq> PNone
   \<and> fst (ensure_config_files_exist example_env readonly_world) = Inr ()
   \<and> config_file example_env \<in> readonly readonly_world
   \<and> credentials_file example_env \<notin> readonly readonly_world
   \<and> lock_log (snd (write_cfg example_env Configuration_init (Some example_amazon) readonly_world)) =
        [Acquire ''/home/u/.aws/config.lock'', Release ''/home/u/.aws/config.lock'',
         Acquire ''/home/u/.aws/credentials.lock'', Release ''/home/u/.aws/credentials.lock'']
   \<and> fst (write_cfg example_env Configuration_init (Some example_amazon) readonly_world)
        = Inl PermissionError
   \<and> raw_value (snd (write_cfg example_env Configuration_init (Some example_amazon) readonly_world))
        ''/home/u/.aws/credentials'' ''default'' ''aws_access_key_id'' = Some ''ASIAEXAMPLE''"
proof -
  have p: "profile Configuration_init \<noteq> PNone" by (simp add: Configuration_init_def)
  have rd: "cp_read readonly_world ''/home/u/.aws/config'' = Inr ini_empty"
    "cp_read readonly_world ''/home/u/.aws/credentials'' = Inr ini_empty"
    by (rule cp_read_fresh, simp add: readonly_world_def)
       (rule cp_read_missing, simp add: readonly_world_def)
  have h: "fst (ensure_config_files_exist example_env readonly_world) = Inr ()
              \<and> config_file example_env \<in> readonly readonly_world
              \<and> credentials_file example_env \<notin> readonly readonly_world
              \<and> credentials_file example_env \<notin> dirs (snd (ensure_config_files_exist example_env readonly_world))
              \<and> parses readonly_world (credentials_file example_env)
              \<and> profile Configuration_init = PStr ''default'' \<and> ''default'' \<noteq> [] \<and> ''default'' \<noteq> ''DEFAULT''"
    by (simp add: ensure_readonly_world parses_def Configuration_init_def)
       (simp add: example_env_def rd, simp add: readonly_world_def)
  have e1: "fst (ensure_config_files_exist example_env readonly_world) = Inr ()"
    by (simp add: ensure_readonly_world)
  have d1: "config_file example_env \<notin> dirs (snd (ensure_config_files_exist example_env readonly_world))"
    by (simp add: ensure_readonly_world) (simp add: example_env_def readonly_world_def)
  have ll: "lock_log readonly_world = []"
    by (simp add: readonly_world_def)
  have rc: "cp_read readonly_world (config_file example_env) = Inr ini_empty"
    using rd by (simp add: example_env_def)
  note t = write_two_critical_sections [OF p, where e = example_env and a = example_amazon
        and w = readonly_world and name = "''default''"]
  have l: "lock_log (snd (write_cfg example_env Configuration_init (Some example_amazon) readonly_world)) =
        [Acquire ''/home/u/.aws/config.lock'', Release ''/home/u/.aws/config.lock'',
         Acquire ''/home/u/.aws/credentials.lock'', Release ''/home/u/.aws/credentials.lock'']"
    using t [THEN conjunct1, unfolded e1 ll]
    by (simp add: example_env_def lock_path_def)
  have r: "fst (write_cfg example_env Configuration_init (Some example_amazon) readonly_world)
             = Inl PermissionError
      \<and> raw_value (snd (write_cfg example_env Configuration_init (Some example_amazon) readonly_world))
          ''/home/u/.aws/credentials'' ''default'' ''aws_access_key_id'' = Some ''ASIAEXAMPLE''"
    using t [THEN conjunct2, THEN mp, OF h, unfolded rc] d1
    by (simp add: example_env_def example_amazon_def)
  show ?thesis
    using p h l r by simp
qed



section \<open>Reading the profile\<close>

lemma cp_get_found:
  assumes "cp_read w path = Inr p" and "ini_sections p s \<noteq> None" and "lower k = k"
  shows "cp_get p s k = text_or_kept (found_value w path s k) PNone"
  using assms
  by (auto simp: cp_get_def found_value_def text_or_kept_def split: option.splits)

lemma cp_getboolean_found:
  assumes "cp_read w path = Inr p" and "ini_sections p s \<noteq> None" and "lower k = k"
  shows "cp_getboolean p s k =
     (case found_value w path s k of
        None \<Rightarrow> Inr PNone
      | Some v \<Rightarrow> (case boolean_state (lower v) of None \<Rightarrow> Inl ValueError | Some b \<Rightarrow> Inr (PBool b)))"
  by (simp add: cp_getboolean_def cp_get_found [OF assms] text_or_kept_def split: option.splits)

lemma cp_getint_found:
  assumes "cp_read w path = Inr p" and "ini_sections p s \<noteq> None" and "lower k = k"
  shows "cp_getint p s k =
     (case found_value w path s k of
        None \<Rightarrow> Inr PNone
      | Some v \<Rightarrow> (case py_int v of None \<Rightarrow> Inl ValueError | Some i \<Rightarrow> Inr (PInt i)))"
  by (simp add: cp_getint_def cp_get_found [OF assms] text_or_kept_def split: option.splits)

lemma coalesce_text: "coalesce (text_or_kept f PNone) kept = text_or_kept f kept"
  by (simp add: coalesce_def text_or_kept_def split: option.splits)

lemma has_section_str:
  "cp_has_section p sec \<Longrightarrow> sec = PStr (py_str sec) \<and> ini_sections p (py_str sec) \<noteq> None"
  by (cases sec) (simp_all add: cp_has_section_def)

lemma has_profile_sectionD:
  assumes "has_profile_section e w prof"
  shows "\<exists>p. cp_read w (config_file e) = Inr p \<and> cp_has_section p (config_profile prof)"
  using assms by (cases "cp_read w (config_file e)") (simp_all add: has_profile_section_def)

text \<open>
  The result of \<open>read\<close> when \<open>ensure_config_files_exist\<close> returns, the section exists
  and both typed options are well formed.
\<close>

lemma read_section_present:
  assumes ens: "ensure_config_files_exist e w = (Inr (), w1)"
    and has: "has_profile_section e w prof"
    and b: "denotes_bool (found_value w (config_file e) (py_str (config_profile prof)) ''asa.ask_role'')"
    and i: "denotes_int (found_value w (config_file e) (py_str (config_profile prof)) ''asa.duration'')"
  shows "read e prof cfg w =
     (Inr (),
      cfg\<lparr> profile := prof,
           ask_role := bool_or_kept (found_value w (config_file e) (py_str (config_profile prof)) ''asa.ask_role'') (ask_role cfg),
           duration := int_or_kept (found_value w (config_file e) (py_str (config_profile prof)) ''asa.duration'') (duration cfg),
           login_url := text_or_kept (found_value w (config_file e) (py_str (config_profile prof)) ''asa.login_url'') (login_url cfg),
           region := text_or_kept (found_value w (config_file e) (py_str (config_profile prof)) ''region'') (region cfg),
           role_arn := text_or_kept (found_value w (config_file e) (py_str (config_profile prof)) ''asa.role_arn'') (role_arn cfg),
           account := text_or_kept (found_value w (config_file e) (py_str (config_profile prof)) ''account'') (account cfg) \<rparr>,
      w1)"
proof -
  let ?s = "py_str (config_profile prof)"
  obtain p where p: "cp_read w (config_file e) = Inr p" and hp: "cp_has_section p (config_profile prof)"
    using has_profile_sectionD [OF has] by blast
  have sec: "ini_sections p ?s \<noteq> None"
    using has_section_str [OF hp] by simp
  have p1: "cp_read w1 (config_file e) = Inr p"
    using cp_read_ensure [of e w "config_file e"] ens p by simp
  note low = lower_option_names
  have gb: "cp_getboolean p ?s ''asa.ask_role'' =
      Inr (bool_or_kept (found_value w (config_file e) ?s ''asa.ask_role'') PNone)"
    using b by (auto simp: cp_getboolean_found [OF p sec] low denotes_bool_def bool_or_kept_def
        split: option.splits)
  have gi: "cp_getint p ?s ''asa.duration'' =
      Inr (int_or_kept (found_value w (config_file e) ?s ''asa.duration'') PNone)"
    using i by (auto simp: cp_getint_found [OF p sec] low denotes_int_def int_or_kept_def
        split: option.splits)
  have cb: "\<And>f kept. denotes_bool f \<Longrightarrow> coalesce (bool_or_kept f PNone) kept = bool_or_kept f kept"
    by (auto simp: coalesce_def bool_or_kept_def denotes_bool_def split: option.splits)
  have ci: "\<And>f kept. denotes_int f \<Longrightarrow> coalesce (int_or_kept f PNone) kept = int_or_kept f kept"
    by (auto simp: coalesce_def int_or_kept_def denotes_int_def split: option.splits)
  show ?thesis
    using hp
    by (simp add: read_def Let_def ens p1 gb gi
          cp_get_found [OF p sec] low coalesce_text cb [OF b] ci [OF i] unicode_to_string_def)
qed


















section \<open>Writing and reading back\<close>

lemma strip_no_blank_ends:
  "strip s = [] \<or> (\<not> is_space (hd (strip s)) \<and> \<not> is_space (last (strip s)))"
proof -
  let ?t = "dropWhile is_space s"
  let ?u = "dropWhile is_space (rev ?t)"
  have s: "strip s = rev ?u" by (simp add: strip_def)
  show ?thesis
  proof (cases "?u = []")
    case True
    then show ?thesis by (simp add: s)
  next
    case False
    then have l: "\<not> is_space (hd ?u)" by (rule hd_dropWhile)
    have "?t \<noteq> []"
    proof
      assume "?t = []"
      then have "?u = []" by (metis dropWhile.simps(1) rev.simps(1))
      with False show False by blast
    qed
    then have h: "\<not> is_space (hd ?t)" by (rule hd_dropWhile)
    obtain pre where pre: "rev ?t = pre @ ?u"
      by (metis takeWhile_dropWhile_id)
    then have "?t = rev ?u @ rev pre" by (metis rev_append rev_rev_ident)
    then have "hd ?t = hd (rev ?u)" using False by (metis hd_append2 rev_is_Nil_conv)
    then have "\<not> is_space (hd (rev ?u))" using h by simp
    moreover have "last (rev ?u) = hd ?u" using False by (simp add: last_rev)
    ultimately show ?thesis using l by (simp add: s)
  qed
qed

lemma strip_fixed:
  assumes "t = [] \<or> (\<not> is_space (hd t) \<and> \<not> is_space (last t))"
  shows "strip t = t"
proof (cases "t = []")
  case True
  then show ?thesis by (simp add: strip_def)
next
  case False
  with assms have h: "\<not> is_space (hd t)" and l: "\<not> is_space (last t)" by auto
  have a: "dropWhile is_space t = t" using h by (simp add: dropWhile_eq_self_iff)
  have "hd (rev t) = last t" using False by (simp add: hd_rev)
  then have b: "dropWhile is_space (rev t) = rev t" using l by (simp add: dropWhile_eq_self_iff)
  show ?thesis by (simp add: strip_def a b)
qed

lemma strip_idem: "strip (strip s) = strip s"
  by (rule strip_fixed) (rule strip_no_blank_ends)

lemma py_int_strip: "py_int (strip s) = py_int s"
  by (simp add: py_int_def strip_idem)

lemma digit_char_facts:
  assumes "d < 10"
  shows "is_digit (digit_char d)" and "digit_val (digit_char d) = d"
    and "\<not> is_space (digit_char d)" and "digit_char d \<noteq> CHR ''-''" and "digit_char d \<noteq> CHR ''+''"
proof -
  from assms have "d = 0 \<or> d = 1 \<or> d = 2 \<or> d = 3 \<or> d = 4 \<or> d = 5 \<or> d = 6
    \<or> d = 7 \<or> d = 8 \<or> d = 9" by arith
  then have "is_digit (digit_char d) \<and> digit_val (digit_char d) = d \<and> \<not> is_space (digit_char d)
      \<and> digit_char d \<noteq> CHR ''-'' \<and> digit_char d \<noteq> CHR ''+''"
    by (elim disjE) (simp_all add: digit_char_def is_digit_def digit_val_def is_space_def)
  then show "is_digit (digit_char d)" and "digit_val (digit_char d) = d"
    and "\<not> is_space (digit_char d)" and "digit_char d \<noteq> CHR ''-''" and "digit_char d \<noteq> CHR ''+''"
    by simp_all
qed

lemma nat_digits_all: "list_all is_digit (nat_digits n) \<and> nat_digits n \<noteq> []"
proof (induction n rule: nat_digits.induct)
  case (1 n)
  show ?case
  proof (cases "n < 10")
    case True
    then show ?thesis by (simp add: nat_digits_small digit_char_facts)
  next
    case False
    then show ?thesis using 1 by (simp add: nat_digits_large digit_char_facts)
  qed
qed

lemma digits_value_all:
  "list_all is_digit ds \<Longrightarrow>
     digits_value acc ds = Some (foldl (\<lambda>a c. a * 10 + digit_val c) acc ds)"
  by (induction ds arbitrary: acc) simp_all

lemma nat_digits_value: "foldl (\<lambda>a c. a * 10 + digit_val c) 0 (nat_digits n) = n"
proof (induction n rule: nat_digits.induct)
  case (1 n)
  show ?case
  proof (cases "n < 10")
    case True
    then show ?thesis by (simp add: nat_digits_small digit_char_facts)
  next
    case False
    then show ?thesis using 1 by (simp add: nat_digits_large digit_char_facts)
  qed
qed

lemma unsigned_int_nat_digits: "unsigned_int (nat_digits n) = Some n"
proof -
  obtain c cs where cs: "nat_digits n = c # cs" using nat_digits_all [of n] by (cases "nat_digits n") auto
  have all: "is_digit c" "list_all is_digit cs" using nat_digits_all [of n] cs by auto
  have "foldl (\<lambda>a c. a * 10 + digit_val c) 0 (c # cs) = n"
    using nat_digits_value [of n] cs by simp
  then show ?thesis
    using all by (simp add: unsigned_int_def cs digits_value_all)
qed

lemma digit_not_blank:
  "is_digit c \<Longrightarrow> \<not> is_space c \<and> c \<noteq> CHR ''-'' \<and> c \<noteq> CHR ''+'' \<and> c \<noteq> CHR 0x0A \<and> c \<noteq> CHR 0x0D"
  by (auto simp: is_digit_def is_space_def Let_def)

lemma strip_nat_digits: "strip (nat_digits n) = nat_digits n"
proof (rule strip_fixed)
  have "nat_digits n \<noteq> []" and all: "list_all is_digit (nat_digits n)"
    using nat_digits_all [of n] by auto
  then have "is_digit (hd (nat_digits n))" and "is_digit (last (nat_digits n))"
    by (auto simp: list_all_iff)
  then show "nat_digits n = [] \<or> (\<not> is_space (hd (nat_digits n)) \<and> \<not> is_space (last (nat_digits n)))"
    using digit_not_blank by blast
qed

lemma strip_str_int: "strip (str_int i) = str_int i"
proof (rule strip_fixed)
  have ne: "nat_digits n \<noteq> []" and all: "list_all is_digit (nat_digits n)" for n
    using nat_digits_all [of n] by auto
  have l: "\<not> is_space (last (nat_digits n))" for n
    using ne [of n] all [of n] digit_not_blank by (auto simp: list_all_iff)
  have h: "\<not> is_space (hd (nat_digits n))" for n
    using ne [of n] all [of n] digit_not_blank by (auto simp: list_all_iff)
  have m: "\<not> is_space CHR ''-''" by (simp add: is_space_def)
  show "str_int i = [] \<or> (\<not> is_space (hd (str_int i)) \<and> \<not> is_space (last (str_int i)))"
    using l h m ne by (simp add: str_int_def)
qed

lemma py_int_str_int: "py_int (str_int i) = Some i"
proof (cases "i < 0")
  case True
  then show ?thesis
    by (simp add: py_int_def strip_str_int) (simp add: str_int_def unsigned_int_nat_digits)
next
  case False
  obtain c cs where cs: "nat_digits (nat i) = c # cs"
    using nat_digits_all [of "nat i"] by (cases "nat_digits (nat i)") auto
  have "is_digit c" using nat_digits_all [of "nat i"] cs by auto
  then have c: "c \<noteq> CHR ''-''" "c \<noteq> CHR ''+''" using digit_not_blank by auto
  have "unsigned_int (c # cs) = Some (nat i)" using unsigned_int_nat_digits [of "nat i"] cs by simp
  then show ?thesis
    using False c by (simp add: py_int_def strip_str_int) (simp add: str_int_def cs)
qed

lemma boolean_texts:
  "boolean_state (lower (strip ''True'')) = Some True"
  "boolean_state (lower (strip ''False'')) = Some False"
  by code_simp+

text \<open>The texts that \<open>str\<close> prints for a boolean and an integer are single lines.\<close>

lemma single_line_digits: "list_all is_digit ds \<Longrightarrow> single_line ds"
  using digit_not_blank by (auto simp: single_line_def list_all_iff)

lemma single_line_str_int: "single_line (str_int i)"
  using single_line_digits [OF nat_digits_all [THEN conjunct1]]
  by (simp add: str_int_def single_line_def)

lemma single_line_bool: "single_line (py_str (PBool b))"
  by (cases b) (simp_all add: single_line_def)

lemma config_profile_line:
  "\<exists>s. config_profile (PStr name) = PStr s \<and> s \<noteq> [] \<and> (s = ''DEFAULT'' \<longrightarrow> name = ''DEFAULT'')
       \<and> (single_line name \<longrightarrow> single_line s)"
  by (auto simp: config_profile_def lower_def single_line_def)

text \<open>
  The state of a parser that has read a file: it prints plainly, its values have no
  blank at either end, and it has no section with the empty name or the name
  \<open>DEFAULT\<close>.
\<close>

lemma ini_parse_idem: "ini_parse (ini_parse d) = ini_parse d"
  by (auto simp: ini_parse_def fun_eq_iff strip_idem option.map_comp comp_def split: option.splits)

lemma cp_read_parsed:
  assumes "cp_read w path = Inr p"
  shows "ini_parse p = p" and "ini_layout p = Plain" and "ini_sections p [] = None"
    and "ini_sections p ''DEFAULT'' = None"
proof -
  have "\<exists>d. p = ini_parse d"
    using assms ini_parse_empty
    by (auto simp: cp_read_def split: if_splits option.splits layout.splits sum.splits) metis+
  then obtain d where d: "p = ini_parse d" ..
  show "ini_parse p = p" by (simp add: d ini_parse_idem)
  show "ini_layout p = Plain" "ini_sections p [] = None" "ini_sections p ''DEFAULT'' = None"
    by (simp_all add: d ini_parse_def)
qed

lemma cp_read_stripped:
  assumes "cp_read w path = Inr p" and "ini_sections p s = Some m" and "m k = Some v"
  shows "strip v = v"
proof -
  have "ini_sections (ini_parse p) s = Some m"
    using assms(1,2) cp_read_parsed(1) [OF assms(1)] by simp
  then have "map_option strip (m k) = m k"
    using assms(2) by (auto simp: ini_parse_def fun_eq_iff split: if_splits)
  then show ?thesis using assms(3) by simp
qed

text \<open>A document that prints plainly is read back as the parser's view of it.\<close>

lemma cp_read_written:
  assumes "path \<notin> dirs w" and "ini_layout p = Plain" and "ini_sections p [] = None"
  shows "cp_read (w\<lparr>files := (files w)(path \<mapsto> p)\<rparr>) path = Inr (ini_parse p)"
  using assms by (simp add: cp_read_def)

lemma cp_read_elsewhere:
  assumes "path \<noteq> other"
  shows "cp_read (w\<lparr>files := (files w)(other \<mapsto> p)\<rparr>) path = cp_read w path"
  using assms by (intro cp_read_cong) simp_all

lemma ini_parse_section:
  assumes "s \<noteq> ''DEFAULT''" and "s \<noteq> []" and "ini_sections p s = Some m"
  shows "ini_sections (ini_parse p) s = Some (\<lambda>k. map_option strip (m k))"
  using assms by (simp add: ini_parse_def)



lemma section_value_lock [simp]:
  "section_value (lock_acquire l w) = section_value w"
  "section_value (lock_release l w) = section_value w"
  by (simp_all add: section_value_def fun_eq_iff)

text \<open>The section that a part of \<open>write\<close> works on is ready after \<open>add_section\<close>.\<close>

lemma section_ready:
  assumes "name \<noteq> ''DEFAULT''"
  shows "\<exists>p1 m. (if \<not> cp_has_section p0 (PStr name) then cp_add_section p0 (PStr name) else Inr p0) = Inr p1
           \<and> ini_sections p1 name = Some m
           \<and> ini_defaults p1 = ini_defaults p0
           \<and> (\<forall>s. s \<noteq> name \<longrightarrow> ini_sections p1 s = ini_sections p0 s)
           \<and> (ini_sections p0 name \<noteq> None \<longrightarrow> p1 = p0)
           \<and> (ini_layout p0 = Plain \<and> single_line name \<and> name \<noteq> [] \<longrightarrow> ini_layout p1 = Plain)"
  using assms
  by (cases "cp_has_section p0 (PStr name)")
     (auto simp: cp_add_section_def cp_has_section_def worse_def header_layout_def)

text \<open>
  The config part of \<open>write\<close>, when it returns, has stored the five options in a file
  that the parser reads back.
\<close>

lemma write_config_section_stores:
  assumes ok: "write_config_section e cfg w = (Inr (), w3)" and prof: "profile cfg = PStr name"
    and ln: "single_line name"
    and lv: "single_line (py_str (region cfg))" "single_line (py_str (ask_role cfg))"
      "single_line (py_str (duration cfg))" "single_line (py_str (login_url cfg))"
      "single_line (py_str (role_arn cfg))"
  shows "\<exists>s. config_profile (PStr name) = PStr s
     \<and> section_value w3 (config_file e) s ''region'' = Some (strip (py_str (region cfg)))
     \<and> section_value w3 (config_file e) s ''asa.ask_role'' = Some (strip (py_str (ask_role cfg)))
     \<and> section_value w3 (config_file e) s ''asa.duration'' = Some (strip (py_str (duration cfg)))
     \<and> section_value w3 (config_file e) s ''asa.login_url'' = Some (strip (py_str (login_url cfg)))
     \<and> section_value w3 (config_file e) s ''asa.role_arn'' = Some (strip (py_str (role_arn cfg)))"
proof -
  obtain s where s: "config_profile (PStr name) = PStr s" "s \<noteq> []" "s = ''DEFAULT'' \<longrightarrow> name = ''DEFAULT''"
      "single_line s"
    using config_profile_line [of name] ln by auto
  obtain p0 where p0: "cp_read w (config_file e) = Inr p0"
    using ok by (cases "cp_read w (config_file e)") (simp_all add: write_config_section_def Let_def)
  note pp = cp_read_parsed [OF p0]
  let ?kvs = "[(''region'', region cfg), (''asa.ask_role'', ask_role cfg),
               (''asa.duration'', duration cfg), (''asa.login_url'', login_url cfg),
               (''asa.role_arn'', role_arn cfg)]"
  have nd: "s \<noteq> ''DEFAULT''"
  proof
    assume d: "s = ''DEFAULT''"
    have "\<not> cp_has_section p0 (PStr ''DEFAULT'')"
      by (simp add: cp_has_section_def pp(4))
    moreover have cpd: "config_profile (PStr name) = PStr ''DEFAULT''"
      using s(1) d by simp
    ultimately have "write_config_section e cfg w = (Inl ValueError, w)"
      by (simp add: write_config_section_def Let_def prof cpd p0 cp_add_section_def)
    with ok show False by simp
  qed
  obtain p1 m where p1: "(if \<not> cp_has_section p0 (PStr s) then cp_add_section p0 (PStr s) else Inr p0) = Inr p1"
    and m: "ini_sections p1 s = Some m"
    and other: "\<forall>t. t \<noteq> s \<longrightarrow> ini_sections p1 t = ini_sections p0 t"
    and lay: "ini_layout p0 = Plain \<and> single_line s \<and> s \<noteq> [] \<longrightarrow> ini_layout p1 = Plain"
    using section_ready [OF nd, of p0] by blast
  have l1: "ini_layout p1 = Plain" using lay pp(2) s by simp
  have e1: "ini_sections p1 [] = None" using other s(2) pp(3) by simp
  let ?m2 = "foldl (\<lambda>m (k, v). m(lower k \<mapsto> py_str v)) m ?kvs"
  let ?l2 = "foldl (\<lambda>l (k, v). worse l (value_layout (py_str v))) (ini_layout p1) ?kvs"
  let ?p2 = "p1\<lparr>ini_sections := (ini_sections p1)(s \<mapsto> ?m2), ini_layout := ?l2\<rparr>"
  have p2: "cp_set_all p1 (PStr s) ?kvs = Inr ?p2"
    using cp_set_all_section [of "PStr s" p1 m ?kvs] s nd m by simp
  have eq: "write_config_section e cfg w = cp_write (config_file e) ?p2 w"
    by (simp only: write_config_section_def Let_def prof s p0 p1 p2 sum.case)
  have nodir: "config_file e \<notin> dirs w"
    and w3: "w3 = w\<lparr>files := (files w)(config_file e \<mapsto> ?p2)\<rparr>"
    using ok unfolding eq by (simp_all add: cp_write_def split: if_splits)
  have l2: "ini_layout ?p2 = Plain"
    using lv by (simp add: l1 worse_def value_layout_def)
  have e2: "ini_sections ?p2 [] = None"
    using e1 s(2) by simp
  have rd: "cp_read w3 (config_file e) = Inr (ini_parse ?p2)"
    unfolding w3 by (rule cp_read_written [OF nodir l2 e2])
  have "ini_sections ?p2 s = Some ?m2" by simp
  then have sec: "ini_sections (ini_parse ?p2) s = Some (\<lambda>k. map_option strip (?m2 k))"
    by (rule ini_parse_section [OF nd s(2)])
  have val: "section_value w3 (config_file e) s k = map_option strip (?m2 k)" for k
    by (simp only: section_value_def rd sec sum.case option.case)
  show ?thesis
    using s(1) by (simp add: val lower_option_names)
qed

text \<open>
  The credentials part, when it returns, leaves alone every option of every section
  that it does not set itself, also when the credentials file is the config file and
  the section of the record prints plainly.
\<close>

lemma write_credentials_section_keeps:
  assumes ok: "write_credentials_section e cfg a w = (Inr (), w6)"
    and prof: "profile cfg = PStr name"
    and v: "section_value w path s k = Some v"
    and k: "k \<notin> {''aws_access_key_id'', ''aws_secret_access_key'', ''aws_security_token'',
                    ''aws_session_expiration'', ''aws_session_token''}"
    and plain: "path = credentials_file e \<longrightarrow> single_line name \<and> record_prints_plainly name a"
  shows "section_value w6 path s k = Some v"
proof -
  let ?K = "{''aws_access_key_id'', ''aws_secret_access_key'', ''aws_security_token'',
             ''aws_session_expiration'', ''aws_session_token''}"
  let ?kvs = "[(''aws_access_key_id'', PStr (access_key_id a)),
               (''aws_secret_access_key'', PStr (secret_access_key a)),
               (''aws_security_token'', PStr (session_token a)),
               (''aws_session_expiration'', PStr (expiration_isoformat a)),
               (''aws_session_token'', PStr (session_token a))]"
  obtain p0 where p0: "cp_read w (credentials_file e) = Inr p0"
    using ok by (cases "cp_read w (credentials_file e)") (simp_all add: write_credentials_section_def)
  note pp = cp_read_parsed [OF p0]
  have nd: "name \<noteq> ''DEFAULT''"
  proof
    assume d: "name = ''DEFAULT''"
    have "\<not> cp_has_section p0 (PStr ''DEFAULT'')"
      by (simp add: cp_has_section_def pp(4))
    then have "write_credentials_section e cfg a w = (Inl ValueError, w)"
      by (simp add: write_credentials_section_def prof d p0 cp_add_section_def)
    with ok show False by simp
  qed
  obtain p1 m0 where p1: "(if \<not> cp_has_section p0 (PStr name) then cp_add_section p0 (PStr name) else Inr p0) = Inr p1"
    and m0: "ini_sections p1 name = Some m0"
    and other: "\<forall>t. t \<noteq> name \<longrightarrow> ini_sections p1 t = ini_sections p0 t"
    and same: "ini_sections p0 name \<noteq> None \<longrightarrow> p1 = p0"
    and lay: "ini_layout p0 = Plain \<and> single_line name \<and> name \<noteq> [] \<longrightarrow> ini_layout p1 = Plain"
    using section_ready [OF nd, of p0] by blast
  have "\<exists>p2. cp_set_all p1 (PStr name) ?kvs = Inr p2"
  proof (cases "name = []")
    case True
    then show ?thesis
      using cp_set_all_defaults [of "PStr name" p1 ?kvs] by (intro exI) simp
  next
    case False
    then show ?thesis
      using cp_set_all_section [of "PStr name" p1 m0 ?kvs] nd m0 by (intro exI) simp
  qed
  then obtain p2 where p2: "cp_set_all p1 (PStr name) ?kvs = Inr p2" ..
  have eq: "write_credentials_section e cfg a w = cp_write (credentials_file e) p2 w"
    by (simp only: write_credentials_section_def Let_def prof p0 p1 p2 sum.case)
  have nodir: "credentials_file e \<notin> dirs w"
    and w6: "w6 = w\<lparr>files := (files w)(credentials_file e \<mapsto> p2)\<rparr>"
    using ok unfolding eq by (simp_all add: cp_write_def split: if_splits)
  show ?thesis
  proof (cases "path = credentials_file e")
    case False
    have "cp_read w6 path = cp_read w path"
      unfolding w6 by (rule cp_read_elsewhere [OF False])
    then show ?thesis using v by (simp add: section_value_def)
  next
    case True
    with plain have ln: "single_line name" and ne: "name \<noteq> []"
      and la: "single_line (access_key_id a)" "single_line (secret_access_key a)"
        "single_line (session_token a)" "single_line (expiration_isoformat a)"
      by (simp_all add: record_prints_plainly_def)
    let ?m2 = "foldl (\<lambda>m (k, v). m(lower k \<mapsto> py_str v)) m0 ?kvs"
    let ?l2 = "foldl (\<lambda>l (k, v). worse l (value_layout (py_str v))) (ini_layout p1) ?kvs"
    have p2': "p2 = p1\<lparr>ini_sections := (ini_sections p1)(name \<mapsto> ?m2), ini_layout := ?l2\<rparr>"
      using p2 cp_set_all_section [of "PStr name" p1 m0 ?kvs] ne nd m0 by simp
    have l1: "ini_layout p1 = Plain" using lay pp(2) ln ne by simp
    have l2: "ini_layout p2 = Plain"
      using la by (simp add: p2' l1 worse_def value_layout_def)
    have e2: "ini_sections p2 [] = None"
      using other ne pp(3) by (simp add: p2')
    have rd: "cp_read w6 (credentials_file e) = Inr (ini_parse p2)"
      unfolding w6 by (rule cp_read_written [OF nodir l2 e2])
    from v True obtain m where m: "ini_sections p0 s = Some m" "m k = Some v"
      by (auto simp: section_value_def p0 split: option.splits)
    have sv: "strip v = v" by (rule cp_read_stripped [OF p0 m])
    have s_ok: "s \<noteq> ''DEFAULT''" "s \<noteq> []"
      using m(1) pp(3,4) by auto
    have keep: "?m2 k = m0 k"
      using k by (simp add: lower_option_names)
    have "\<exists>m2. ini_sections p2 s = Some m2 \<and> m2 k = Some v"
    proof (cases "s = name")
      case True
      with m(1) same have "p1 = p0" by simp
      with m0 m(1) True have "m0 = m" by simp
      then show ?thesis using True keep m(2) by (simp add: p2')
    next
      case False
      then show ?thesis using other m by (simp add: p2')
    qed
    then obtain m2 where m2: "ini_sections p2 s = Some m2" "m2 k = Some v" by blast
    have "ini_sections (ini_parse p2) s = Some (\<lambda>k. map_option strip (m2 k))"
      by (rule ini_parse_section [OF s_ok m2(1)])
    then have "section_value w6 (credentials_file e) s k = map_option strip (m2 k)"
      by (simp only: section_value_def rd sum.case option.case)
    then show ?thesis
      using True m2(2) sv by simp
  qed
qed

text \<open>What exists stays, through both parts and the locks.\<close>

lemma write_config_section_world:
  "snd (write_config_section e cfg w) = w
   \<or> (\<exists>p. snd (write_config_section e cfg w) = w\<lparr>files := (files w)(config_file e \<mapsto> p)\<rparr>)"
  by (auto simp: write_config_section_def cp_write_def Let_def split: sum.splits)

lemma write_credentials_section_world:
  "snd (write_credentials_section e cfg a w) = w
   \<or> (\<exists>p. snd (write_credentials_section e cfg a w) = w\<lparr>files := (files w)(credentials_file e \<mapsto> p)\<rparr>)"
  by (auto simp: write_credentials_section_def cp_write_def Let_def split: sum.splits)

lemma os_path_exists_lock [simp]:
  "os_path_exists (lock_acquire l w) = os_path_exists w"
  "os_path_exists (lock_release l w) = os_path_exists w"
  by (simp_all add: os_path_exists_def fun_eq_iff)

lemma write_config_section_exists:
  "os_path_exists w p \<Longrightarrow> os_path_exists (snd (write_config_section e cfg w)) p"
  using write_config_section_world [of e cfg w]
  by (auto simp: os_path_exists_def split: if_splits)

lemma write_credentials_section_exists:
  "os_path_exists w p \<Longrightarrow> os_path_exists (snd (write_credentials_section e cfg a w)) p"
  using write_credentials_section_world [of e cfg a w]
  by (auto simp: os_path_exists_def split: if_splits)

text \<open>The shape of a call of \<open>write\<close> that returns.\<close>

lemma write_cfg_returned:
  assumes ok: "write_cfg e cfg amazon_object w = (Inr (), w')" and prof: "profile cfg = PStr name"
  shows "\<exists>w1 w3. ensure_config_files_exist e w = (Inr (), w1)
     \<and> write_config_section e cfg (lock_acquire (lock_path (config_file e)) w1) = (Inr (), w3)
     \<and> (case amazon_object of
           None \<Rightarrow> w' = lock_release (lock_path (config_file e)) w3
         | Some a \<Rightarrow>
             (\<exists>w6. write_credentials_section e cfg a
                      (lock_acquire (lock_path (credentials_file e))
                         (lock_release (lock_path (config_file e)) w3)) = (Inr (), w6)
                \<and> w' = lock_release (lock_path (credentials_file e)) w6))"
proof -
  obtain r w1 where ens: "ensure_config_files_exist e w = (r, w1)"
    by (cases "ensure_config_files_exist e w")
  have r: "r = Inr ()"
    using ok ens by (cases r) (simp_all add: write_cfg_def)
  have pn: "profile cfg \<noteq> PNone" using prof by simp
  let ?w2 = "lock_acquire (lock_path (config_file e)) w1"
  obtain r1 w3 where c: "write_config_section e cfg ?w2 = (r1, w3)"
    by (cases "write_config_section e cfg ?w2")
  show ?thesis
  proof (cases amazon_object)
    case None
    have "write_cfg e cfg None w = (r1, lock_release (lock_path (config_file e)) w3)"
      using write_cfg_without_record [OF ens [unfolded r] pn] c by (simp add: Let_def)
    with ok None have "r1 = Inr ()" "w' = lock_release (lock_path (config_file e)) w3" by simp_all
    then show ?thesis using ens r c None by simp
  next
    case (Some a)
    let ?w5 = "lock_acquire (lock_path (credentials_file e)) (lock_release (lock_path (config_file e)) w3)"
    obtain r2 w6 where k: "write_credentials_section e cfg a ?w5 = (r2, w6)"
      by (cases "write_credentials_section e cfg a ?w5")
    have "write_cfg e cfg (Some a) w =
        (case r2 of Inl er \<Rightarrow> Inl er | Inr u \<Rightarrow> r1, lock_release (lock_path (credentials_file e)) w6)"
      using write_cfg_with_record [OF ens [unfolded r] pn, of a] c k
      by (simp add: Let_def split: sum.splits)
    with ok Some have res: "(case r2 of Inl er \<Rightarrow> Inl er | Inr u \<Rightarrow> r1) = Inr ()"
      and w': "w' = lock_release (lock_path (credentials_file e)) w6" by simp_all
    from res have "r2 = Inr ()" and "r1 = Inr ()" by (cases r2; simp)+
    then show ?thesis using ens r c k Some w' by simp
  qed
qed

text \<open>After a call of \<open>write\<close> that returned, \<open>ensure_config_files_exist\<close> finds all in place.\<close>

lemma write_cfg_ensured:
  assumes ok: "write_cfg e cfg amazon_object w = (Inr (), w')" and prof: "profile cfg = PStr name"
  shows "ensure_config_files_exist e w' = (Inr (), w')"
proof -
  from write_cfg_returned [OF ok prof] obtain w1 w3 where
    ens: "ensure_config_files_exist e w = (Inr (), w1)"
    and c: "write_config_section e cfg (lock_acquire (lock_path (config_file e)) w1) = (Inr (), w3)"
    and rest: "case amazon_object of
           None \<Rightarrow> w' = lock_release (lock_path (config_file e)) w3
         | Some a \<Rightarrow>
             (\<exists>w6. write_credentials_section e cfg a
                      (lock_acquire (lock_path (credentials_file e))
                         (lock_release (lock_path (config_file e)) w3)) = (Inr (), w6)
                \<and> w' = lock_release (lock_path (credentials_file e)) w6)"
    by (elim exE conjE)
  have e1: "fst (ensure_files [config_file e, credentials_file e] w) = Inr ()"
    and s1: "snd (ensure_files [config_file e, credentials_file e] w) = w1"
    using ens by (simp_all add: ensure_config_files_exist_def del: ensure_files.simps)
  have ex1: "os_path_exists w1 f \<and> os_path_exists w1 (os_path_dirname f)"
    if "f \<in> set [config_file e, credentials_file e]" for f
    using ensure_files_exist [OF e1 that] s1 by simp
  have ex3: "os_path_exists w3 p" if "os_path_exists w1 p" for p
    using write_config_section_exists [of "lock_acquire (lock_path (config_file e)) w1" p e cfg] that c
    by simp
  have ex': "os_path_exists w' p" if "os_path_exists w1 p" for p
  proof (cases amazon_object)
    case None
    then show ?thesis using rest ex3 [OF that] by simp
  next
    case (Some a)
    let ?w5 = "lock_acquire (lock_path (credentials_file e)) (lock_release (lock_path (config_file e)) w3)"
    from rest Some obtain w6 where k: "write_credentials_section e cfg a ?w5 = (Inr (), w6)"
      and w': "w' = lock_release (lock_path (credentials_file e)) w6" by auto
    have "os_path_exists w6 p"
      using write_credentials_section_exists [of ?w5 p e cfg a] ex3 [OF that] k by simp
    then show ?thesis by (simp add: w')
  qed
  have "\<forall>f \<in> set [config_file e, credentials_file e].
          os_path_exists w' f \<and> os_path_exists w' (os_path_dirname f)"
    using ex1 ex' by blast
  then show ?thesis
    unfolding ensure_config_files_exist_def by (rule ensure_files_nothing)
qed

text \<open>What a call of \<open>write\<close> that returns has stored in the section of the profile.\<close>

lemma write_cfg_stores:
  assumes ok: "write_cfg e cfg amazon_object w = (Inr (), w')" and prof: "profile cfg = PStr name"
    and ln: "single_line name"
    and lv: "single_line (py_str (region cfg))" "single_line (py_str (ask_role cfg))"
      "single_line (py_str (duration cfg))" "single_line (py_str (login_url cfg))"
      "single_line (py_str (role_arn cfg))"
    and plain: "credentials_file e = config_file e \<longrightarrow> credentials_print_plainly name amazon_object"
  shows "\<exists>s. config_profile (PStr name) = PStr s
     \<and> section_value w' (config_file e) s ''region'' = Some (strip (py_str (region cfg)))
     \<and> section_value w' (config_file e) s ''asa.ask_role'' = Some (strip (py_str (ask_role cfg)))
     \<and> section_value w' (config_file e) s ''asa.duration'' = Some (strip (py_str (duration cfg)))
     \<and> section_value w' (config_file e) s ''asa.login_url'' = Some (strip (py_str (login_url cfg)))
     \<and> section_value w' (config_file e) s ''asa.role_arn'' = Some (strip (py_str (role_arn cfg)))"
proof -
  from write_cfg_returned [OF ok prof] obtain w1 w3 where
    ens: "ensure_config_files_exist e w = (Inr (), w1)"
    and c: "write_config_section e cfg (lock_acquire (lock_path (config_file e)) w1) = (Inr (), w3)"
    and rest: "case amazon_object of
           None \<Rightarrow> w' = lock_release (lock_path (config_file e)) w3
         | Some a \<Rightarrow>
             (\<exists>w6. write_credentials_section e cfg a
                      (lock_acquire (lock_path (credentials_file e))
                         (lock_release (lock_path (config_file e)) w3)) = (Inr (), w6)
                \<and> w' = lock_release (lock_path (credentials_file e)) w6)"
    by (elim exE conjE)
  obtain s where s: "config_profile (PStr name) = PStr s"
    and st: "section_value w3 (config_file e) s ''region'' = Some (strip (py_str (region cfg)))"
      "section_value w3 (config_file e) s ''asa.ask_role'' = Some (strip (py_str (ask_role cfg)))"
      "section_value w3 (config_file e) s ''asa.duration'' = Some (strip (py_str (duration cfg)))"
      "section_value w3 (config_file e) s ''asa.login_url'' = Some (strip (py_str (login_url cfg)))"
      "section_value w3 (config_file e) s ''asa.role_arn'' = Some (strip (py_str (role_arn cfg)))"
    using write_config_section_stores [OF c prof ln lv] by blast
  have keep: "section_value w' (config_file e) s k = Some v"
    if "section_value w3 (config_file e) s k = Some v"
      and "k \<notin> {''aws_access_key_id'', ''aws_secret_access_key'', ''aws_security_token'',
                    ''aws_session_expiration'', ''aws_session_token''}" for k v
  proof (cases amazon_object)
    case None
    then show ?thesis using rest that by simp
  next
    case (Some a)
    let ?w5 = "lock_acquire (lock_path (credentials_file e)) (lock_release (lock_path (config_file e)) w3)"
    from rest Some obtain w6 where k: "write_credentials_section e cfg a ?w5 = (Inr (), w6)"
      and w': "w' = lock_release (lock_path (credentials_file e)) w6" by auto
    have v5: "section_value ?w5 (config_file e) s k = Some v" using that by simp
    have pl: "config_file e = credentials_file e \<longrightarrow> single_line name \<and> record_prints_plainly name a"
      using plain ln Some by (auto simp: credentials_print_plainly_def)
    have "section_value w6 (config_file e) s k = Some v"
      by (rule write_credentials_section_keeps [OF k prof v5 that(2) pl])
    then show ?thesis by (simp add: w')
  qed
  show ?thesis
    using s st by (intro exI [of _ s] conjI) (auto intro!: keep)
qed



lemma section_value_found:
  assumes "section_value w path s k = Some v"
  shows "found_value w path s k = Some v"
    and "\<exists>p. cp_read w path = Inr p \<and> ini_sections p s \<noteq> None"
  using assms
  by (auto simp: found_value_def section_value_def split: sum.splits option.splits)

text \<open>
  \<open>write\<close> and then \<open>read\<close>: the boolean and the integer come back; a text attribute
  comes back stripped, whatever it held.
\<close>

lemma write_then_read_stripped:
  assumes ok: "write_cfg e cfg amazon_object w = (Inr (), w')" and prof: "profile cfg = PStr name"
    and ln: "single_line name"
    and b: "ask_role cfg = PBool b" and d: "duration cfg = PInt d"
    and lv: "single_line (py_str (region cfg))" "single_line (py_str (login_url cfg))"
      "single_line (py_str (role_arn cfg))"
    and plain: "credentials_file e = config_file e \<longrightarrow> credentials_print_plainly name amazon_object"
  shows "read e (profile cfg) fresh w' =
     (Inr (),
      fresh\<lparr> profile := profile cfg, ask_role := PBool b, duration := PInt d,
             login_url := PStr (strip (py_str (login_url cfg))),
             region := PStr (strip (py_str (region cfg))),
             role_arn := PStr (strip (py_str (role_arn cfg))),
             account := text_or_kept (found_value w' (config_file e)
                          (py_str (config_profile (profile cfg))) ''account'') (account fresh) \<rparr>,
      w')"
proof -
  have lb: "single_line (py_str (ask_role cfg))" by (simp only: b single_line_bool)
  have ld: "single_line (py_str (duration cfg))" by (simp add: d single_line_str_int)
  obtain s where s: "config_profile (PStr name) = PStr s"
    and st: "section_value w' (config_file e) s ''region'' = Some (strip (py_str (region cfg)))"
      "section_value w' (config_file e) s ''asa.ask_role'' = Some (strip (py_str (ask_role cfg)))"
      "section_value w' (config_file e) s ''asa.duration'' = Some (strip (py_str (duration cfg)))"
      "section_value w' (config_file e) s ''asa.login_url'' = Some (strip (py_str (login_url cfg)))"
      "section_value w' (config_file e) s ''asa.role_arn'' = Some (strip (py_str (role_arn cfg)))"
    using write_cfg_stores [OF ok prof ln lv(1) lb ld lv(2,3) plain] by blast
  note f = st [THEN section_value_found(1)]
  obtain p where p: "cp_read w' (config_file e) = Inr p" "ini_sections p s \<noteq> None"
    using section_value_found(2) [OF st(1)] by blast
  have has: "has_profile_section e w' (profile cfg)"
    using p by (simp add: has_profile_section_def prof s cp_has_section_def)
  have ens: "ensure_config_files_exist e w' = (Inr (), w')"
    by (rule write_cfg_ensured [OF ok prof])
  have bt: "boolean_state (lower (strip (py_str (PBool b)))) = Some b"
    using boolean_texts by (cases b) simp_all
  have it: "py_int (strip (str_int d)) = Some d"
    by (simp add: py_int_strip py_int_str_int)
  have hb: "denotes_bool (found_value w' (config_file e) (py_str (config_profile (profile cfg))) ''asa.ask_role'')"
    using bt by (simp add: prof s f b denotes_bool_def)
  have hi: "denotes_int (found_value w' (config_file e) (py_str (config_profile (profile cfg))) ''asa.duration'')"
    using it by (simp add: prof s f d denotes_int_def)
  have fb: "bool_or_kept (found_value w' (config_file e) (py_str (config_profile (profile cfg))) ''asa.ask_role'') x = PBool b" for x
    using bt by (simp add: prof s f b bool_or_kept_def)
  have fi: "int_or_kept (found_value w' (config_file e) (py_str (config_profile (profile cfg))) ''asa.duration'') x = PInt d" for x
    using it by (simp add: prof s f d int_or_kept_def)
  have fl: "text_or_kept (found_value w' (config_file e) (py_str (config_profile (profile cfg))) ''asa.login_url'') x
              = PStr (strip (py_str (login_url cfg)))" for x
    by (simp add: prof s f text_or_kept_def)
  have fr: "text_or_kept (found_value w' (config_file e) (py_str (config_profile (profile cfg))) ''region'') x
              = PStr (strip (py_str (region cfg)))" for x
    by (simp add: prof s f text_or_kept_def)
  have fa: "text_or_kept (found_value w' (config_file e) (py_str (config_profile (profile cfg))) ''asa.role_arn'') x
              = PStr (strip (py_str (role_arn cfg)))" for x
    by (simp add: prof s f text_or_kept_def)
  show ?thesis
    by (simp only: read_section_present [OF ens has hb hi] fb fi fl fr fa)
qed

text \<open>When the two parts of \<open>write\<close> return.\<close>

lemma write_config_section_returns:
  assumes "parses w (config_file e)" and "config_file e \<notin> readonly w" and "config_file e \<notin> dirs w"
    and prof: "profile cfg = PStr name" and nd: "name \<noteq> ''DEFAULT''"
  shows "fst (write_config_section e cfg w) = Inr ()"
proof -
  obtain p0 where p0: "cp_read w (config_file e) = Inr p0"
    using assms(1) by (cases "cp_read w (config_file e)") (simp_all add: parses_def)
  obtain s where s: "config_profile (PStr name) = PStr s" "s \<noteq> []" "s \<noteq> ''DEFAULT''"
    using config_profile_str [of name] nd by auto
  let ?kvs = "[(''region'', region cfg), (''asa.ask_role'', ask_role cfg),
               (''asa.duration'', duration cfg), (''asa.login_url'', login_url cfg),
               (''asa.role_arn'', role_arn cfg)]"
  obtain p1 m where p1: "(if \<not> cp_has_section p0 (PStr s) then cp_add_section p0 (PStr s) else Inr p0) = Inr p1"
    and m: "ini_sections p1 s = Some m"
    using section_ready [OF s(3), of p0] by blast
  have "\<exists>p2. cp_set_all p1 (PStr s) ?kvs = Inr p2"
    using cp_set_all_section [of "PStr s" p1 m ?kvs] s m by simp
  then obtain p2 where p2: "cp_set_all p1 (PStr s) ?kvs = Inr p2" ..
  have "write_config_section e cfg w = cp_write (config_file e) p2 w"
    by (simp only: write_config_section_def Let_def prof s p0 p1 p2 sum.case)
  then show ?thesis
    using assms(2,3) by (simp add: cp_write_def)
qed

lemma write_credentials_section_returns:
  assumes "parses w (credentials_file e)" and "credentials_file e \<notin> readonly w"
    and "credentials_file e \<notin> dirs w"
    and prof: "profile cfg = PStr name" and nd: "name \<noteq> ''DEFAULT''"
  shows "fst (write_credentials_section e cfg a w) = Inr ()"
proof -
  obtain p0 where p0: "cp_read w (credentials_file e) = Inr p0"
    using assms(1) by (cases "cp_read w (credentials_file e)") (simp_all add: parses_def)
  let ?kvs = "[(''aws_access_key_id'', PStr (access_key_id a)),
               (''aws_secret_access_key'', PStr (secret_access_key a)),
               (''aws_security_token'', PStr (session_token a)),
               (''aws_session_expiration'', PStr (expiration_isoformat a)),
               (''aws_session_token'', PStr (session_token a))]"
  obtain p1 m0 where p1: "(if \<not> cp_has_section p0 (PStr name) then cp_add_section p0 (PStr name) else Inr p0) = Inr p1"
    and m0: "ini_sections p1 name = Some m0"
    using section_ready [OF nd, of p0] by blast
  have "\<exists>p2. cp_set_all p1 (PStr name) ?kvs = Inr p2"
  proof (cases "name = []")
    case True
    then show ?thesis
      using cp_set_all_defaults [of "PStr name" p1 ?kvs] by (intro exI) simp
  next
    case False
    then show ?thesis
      using cp_set_all_section [of "PStr name" p1 m0 ?kvs] nd m0 by (intro exI) simp
  qed
  then obtain p2 where p2: "cp_set_all p1 (PStr name) ?kvs = Inr p2" ..
  have "write_credentials_section e cfg a w = cp_write (credentials_file e) p2 w"
    by (simp only: write_credentials_section_def Let_def prof p0 p1 p2 sum.case)
  then show ?thesis
    using assms(2,3) by (simp add: cp_write_def)
qed

lemma ensure_dirs_result:
  "ensure_config_files_exist e w = (r, w1) \<Longrightarrow> readonly w1 = readonly w \<and> (\<forall>p. cp_read w1 p = cp_read w p)"
  using ensure_readonly [of e w] cp_read_ensure [of e w] by simp

lemma write_cfg_returns:
  assumes prof: "profile cfg = PStr name" and nd: "name \<noteq> ''DEFAULT''" and ln: "single_line name"
    and lv: "single_line (py_str (region cfg))" "single_line (py_str (ask_role cfg))"
      "single_line (py_str (duration cfg))" "single_line (py_str (login_url cfg))"
      "single_line (py_str (role_arn cfg))"
    and ens: "ensure_config_files_exist e w = (Inr (), w1)"
    and cf: "parses w (config_file e)" "config_file e \<notin> readonly w" "config_file e \<notin> dirs w1"
    and cr: "amazon_object \<noteq> None \<longrightarrow>
               parses w (credentials_file e) \<and> credentials_file e \<notin> readonly w
               \<and> credentials_file e \<notin> dirs w1"
  shows "fst (write_cfg e cfg amazon_object w) = Inr ()"
proof -
  have pn: "profile cfg \<noteq> PNone" using prof by simp
  note e1 = ensure_dirs_result [OF ens]
  let ?w2 = "lock_acquire (lock_path (config_file e)) w1"
  have c1: "fst (write_config_section e cfg ?w2) = Inr ()"
    using cf e1 by (intro write_config_section_returns [OF _ _ _ prof nd]) (simp_all add: parses_def)
  obtain w3 where c: "write_config_section e cfg ?w2 = (Inr (), w3)"
    using c1 by (cases "write_config_section e cfg ?w2") simp
  show ?thesis
  proof (cases amazon_object)
    case None
    show ?thesis
      unfolding None write_cfg_without_record [OF ens pn] by (simp add: Let_def c)
  next
    case (Some a)
    let ?w5 = "lock_acquire (lock_path (credentials_file e)) (lock_release (lock_path (config_file e)) w3)"
    from cr Some have cr': "parses w (credentials_file e)" "credentials_file e \<notin> readonly w"
      "credentials_file e \<notin> dirs w1" by simp_all
    from write_config_section_world [of e cfg ?w2] c
    have w3: "w3 = ?w2 \<or> (\<exists>p. w3 = ?w2\<lparr>files := (files ?w2)(config_file e \<mapsto> p)\<rparr>)" by simp
    then have fr: "readonly w3 = readonly w \<and> dirs w3 = dirs w1"
      using e1 by auto
    have pc: "parses ?w5 (credentials_file e)"
    proof (cases "credentials_file e = config_file e")
      case True
      obtain s where "section_value w3 (config_file e) s ''region'' = Some (strip (py_str (region cfg)))"
        using write_config_section_stores [OF c prof ln lv] by blast
      then obtain p where "cp_read w3 (config_file e) = Inr p"
        using section_value_found(2) by blast
      then show ?thesis by (simp add: parses_def True)
    next
      case False
      from w3 have "cp_read w3 (credentials_file e) = cp_read ?w2 (credentials_file e)"
      proof
        assume "w3 = ?w2"
        then show ?thesis by simp
      next
        assume "\<exists>p. w3 = ?w2\<lparr>files := (files ?w2)(config_file e \<mapsto> p)\<rparr>"
        then obtain p where "w3 = ?w2\<lparr>files := (files ?w2)(config_file e \<mapsto> p)\<rparr>" ..
        then show ?thesis by (simp only: cp_read_elsewhere [OF False])
      qed
      then show ?thesis using cr'(1) e1 by (simp add: parses_def)
    qed
    have k1: "fst (write_credentials_section e cfg a ?w5) = Inr ()"
      using pc cr' fr by (intro write_credentials_section_returns [OF _ _ _ prof nd]) simp_all
    show ?thesis
      unfolding Some write_cfg_with_record [OF ens pn] by (simp add: Let_def c k1)
  qed
qed

text \<open>
  The credentials part under the empty profile name adds the section with the empty
  name, and the file it writes is not read again.
\<close>

lemma write_credentials_section_nameless:
  assumes ok: "write_credentials_section e cfg a w = (Inr (), w6)" and prof: "profile cfg = PStr []"
    and la: "single_line (access_key_id a)" "single_line (secret_access_key a)"
      "single_line (session_token a)" "single_line (expiration_isoformat a)"
  shows "cp_read w6 (credentials_file e) = Inl ParsingError"
proof -
  let ?kvs = "[(''aws_access_key_id'', PStr (access_key_id a)),
               (''aws_secret_access_key'', PStr (secret_access_key a)),
               (''aws_security_token'', PStr (session_token a)),
               (''aws_session_expiration'', PStr (expiration_isoformat a)),
               (''aws_session_token'', PStr (session_token a))]"
  obtain p0 where p0: "cp_read w (credentials_file e) = Inr p0"
    using ok by (cases "cp_read w (credentials_file e)") (simp_all add: write_credentials_section_def)
  note pp = cp_read_parsed [OF p0]
  let ?p1 = "p0\<lparr>ini_sections := (ini_sections p0)([] \<mapsto> Map.empty), ini_layout := Broken\<rparr>"
  have p1: "(if \<not> cp_has_section p0 (PStr []) then cp_add_section p0 (PStr []) else Inr p0) = Inr ?p1"
    using pp by (simp add: cp_has_section_def cp_add_section_def worse_def header_layout_def single_line_def)
  let ?p2 = "?p1\<lparr>ini_defaults := foldl (\<lambda>m (k, v). m(lower k \<mapsto> py_str v)) (ini_defaults ?p1) ?kvs,
                 ini_layout := foldl (\<lambda>l (k, v). worse l (value_layout (py_str v))) (ini_layout ?p1) ?kvs\<rparr>"
  have p2: "cp_set_all ?p1 (PStr []) ?kvs = Inr ?p2"
    by (rule cp_set_all_defaults) simp
  have eq: "write_credentials_section e cfg a w = cp_write (credentials_file e) ?p2 w"
    by (simp only: write_credentials_section_def Let_def prof p0 p1 p2 sum.case)
  have nodir: "credentials_file e \<notin> dirs w"
    and w6: "w6 = w\<lparr>files := (files w)(credentials_file e \<mapsto> ?p2)\<rparr>"
    using ok unfolding eq by (simp_all add: cp_write_def split: if_splits)
  have l2: "ini_layout ?p2 = Broken"
    using la by (simp add: worse_def value_layout_def)
  show ?thesis
    unfolding w6 using nodir l2 by (simp add: cp_read_def)
qed

lemma read_unparsed:
  assumes "ensure_config_files_exist e w = (Inr (), w)" and "cp_read w (config_file e) = Inl er"
  shows "read e prof cfg w = (Inl er, cfg, w)"
  using assms by (simp add: read_def Let_def)



text \<open>
  C4, as amended. For every profile name of one line other than \<open>DEFAULT\<close>, and every
  configuration whose config fields are set (\<open>region\<close>, \<open>login_url\<close> and \<open>role_arn\<close> to
  text of one line with no blank at either end, \<open>ask_role\<close> to a boolean, \<open>duration\<close> to
  an integer): when \<open>write\<close> returns, and, where the credentials file is the config
  file, the section of the credential record prints plainly, \<open>read\<close> with the same
  profile on any other configuration object returns and reproduces the profile and
  every written config field exactly.
\<close>

theorem write_then_read_round_trip:
  assumes "write_cfg e cfg amazon_object w = (Inr (), w')"
    and "profile cfg = PStr name" and "name \<noteq> ''DEFAULT''" and "single_line name"
    and "region cfg = PStr r" and "clean_text r"
    and "ask_role cfg = PBool b"
    and "duration cfg = PInt d"
    and "login_url cfg = PStr u" and "clean_text u"
    and "role_arn cfg = PStr ra" and "clean_text ra"
    and "credentials_file e = config_file e \<longrightarrow> credentials_print_plainly name amazon_object"
  shows "fst (read e (profile cfg) fresh w') = Inr ()
     \<and> profile (fst (snd (read e (profile cfg) fresh w'))) = profile cfg
     \<and> region (fst (snd (read e (profile cfg) fresh w'))) = region cfg
     \<and> ask_role (fst (snd (read e (profile cfg) fresh w'))) = ask_role cfg
     \<and> duration (fst (snd (read e (profile cfg) fresh w'))) = duration cfg
     \<and> login_url (fst (snd (read e (profile cfg) fresh w'))) = login_url cfg
     \<and> role_arn (fst (snd (read e (profile cfg) fresh w'))) = role_arn cfg"
proof -
  have lv: "single_line (py_str (region cfg))" "single_line (py_str (login_url cfg))"
    "single_line (py_str (role_arn cfg))"
    using assms(5,6,9,10,11,12) by (simp_all add: clean_text_def)
  show ?thesis
    using assms(5-12)
    by (simp add: write_then_read_stripped [OF assms(1,2,4,7,8) lv assms(13)] clean_text_def)
qed

lemma example_clean:
  "clean_text ''eu-west-1''"
  "clean_text ''https://idp.example.com/sso''"
  "clean_text ''arn:aws:iam::123456789012:role/dev''"
  "single_line ''default''"
  "single_line '' eu-west-1''"
  "single_line ''eu-west-1''"
  "single_line ''https://idp.example.com/sso''"
  "single_line ''arn:aws:iam::123456789012:role/dev''"
  "single_line []"
  by (simp_all add: clean_text_def single_line_def strip_def is_space_def)

lemma example_amazon_plain:
  "single_line (access_key_id example_amazon)" "single_line (secret_access_key example_amazon)"
  "single_line (session_token example_amazon)" "single_line (expiration_isoformat example_amazon)"
  by (simp_all add: example_amazon_def single_line_def)

lemma valid_example_fields:
  "profile valid_example = PStr ''default''"
  "region valid_example = PStr ''eu-west-1''" "ask_role valid_example = PBool True"
  "duration valid_example = PInt 43200" "login_url valid_example = PStr ''https://idp.example.com/sso''"
  "role_arn valid_example = PStr ''arn:aws:iam::123456789012:role/dev''"
  by (simp_all add: valid_example_def Configuration_init_def max_duration_def)

lemma ensure_one_file:
  "ensure_config_files_exist one_file_env empty_world =
     (Inr (), empty_world\<lparr> dirs := {''/home/u/.aws'', ''/home/u''},
        files := [''/home/u/.aws/config'' \<mapsto> ini_empty] \<rparr>)"
  by (simp add: ensure_config_files_exist_def one_file_env_def empty_world_def dirname_example
        os_path_exists_def os_mkdir_def touch_def enter_in_def Let_def)

text \<open>Writes into the empty world that return.\<close>

lemma write_one_file_returns:
  assumes "profile cfg = PStr name" and "name \<noteq> ''DEFAULT''" and "single_line name"
    and "single_line (py_str (region cfg))" "single_line (py_str (ask_role cfg))"
      "single_line (py_str (duration cfg))" "single_line (py_str (login_url cfg))"
      "single_line (py_str (role_arn cfg))"
  shows "fst (write_cfg one_file_env cfg amazon_object empty_world) = Inr ()"
proof (rule write_cfg_returns [OF assms ensure_one_file])
  have m: "files empty_world ''/home/u/.aws/config'' = None" by (simp add: empty_world_def)
  show p: "parses empty_world (config_file one_file_env)"
    by (simp add: parses_def one_file_env_def cp_read_missing [OF m])
  show r: "config_file one_file_env \<notin> readonly empty_world"
    by (simp add: empty_world_def)
  show d: "config_file one_file_env
      \<notin> dirs (empty_world\<lparr> dirs := {''/home/u/.aws'', ''/home/u''},
                 files := [''/home/u/.aws/config'' \<mapsto> ini_empty] \<rparr>)"
    by (simp add: one_file_env_def)
  show "amazon_object \<noteq> None \<longrightarrow>
      parses empty_world (credentials_file one_file_env)
      \<and> credentials_file one_file_env \<notin> readonly empty_world
      \<and> credentials_file one_file_env
          \<notin> dirs (empty_world\<lparr> dirs := {''/home/u/.aws'', ''/home/u''},
                 files := [''/home/u/.aws/config'' \<mapsto> ini_empty] \<rparr>)"
    using p r d by (simp add: one_file_env_def)
qed

lemma write_example_returns:
  assumes "profile cfg = PStr name" and "name \<noteq> ''DEFAULT''" and "single_line name"
    and "single_line (py_str (region cfg))" "single_line (py_str (ask_role cfg))"
      "single_line (py_str (duration cfg))" "single_line (py_str (login_url cfg))"
      "single_line (py_str (role_arn cfg))"
  shows "fst (write_cfg example_env cfg None empty_world) = Inr ()"
proof (rule write_cfg_returns [OF assms ensure_empty_world])
  have m: "files empty_world ''/home/u/.aws/config'' = None" by (simp add: empty_world_def)
  show "parses empty_world (config_file example_env)"
    by (simp add: parses_def example_env_def cp_read_missing [OF m])
  show "config_file example_env \<notin> readonly empty_world"
    by (simp add: empty_world_def)
  show "config_file example_env
      \<notin> dirs (empty_world\<lparr> dirs := {''/home/u/.aws'', ''/home/u''},
                 files := [''/home/u/.aws/config'' \<mapsto> ini_empty,
                           ''/home/u/.aws/credentials'' \<mapsto> ini_empty] \<rparr>)"
    by (simp add: example_env_def)
  show "None \<noteq> None \<longrightarrow>
      parses empty_world (credentials_file example_env)
      \<and> credentials_file example_env \<notin> readonly empty_world
      \<and> credentials_file example_env
          \<notin> dirs (empty_world\<lparr> dirs := {''/home/u/.aws'', ''/home/u''},
                 files := [''/home/u/.aws/config'' \<mapsto> ini_empty,
                           ''/home/u/.aws/credentials'' \<mapsto> ini_empty] \<rparr>)"
    by simp
qed

theorem write_then_read_round_trip_witness:
  "fst (write_cfg one_file_env valid_example (Some example_amazon) empty_world) = Inr ()
   \<and> profile valid_example = PStr ''default'' \<and> ''default'' \<noteq> ''DEFAULT'' \<and> single_line ''default''
   \<and> clean_text ''eu-west-1'' \<and> clean_text ''https://idp.example.com/sso''
   \<and> clean_text ''arn:aws:iam::123456789012:role/dev''
   \<and> credentials_file one_file_env = config_file one_file_env
   \<and> credentials_print_plainly ''default'' (Some example_amazon)
   \<and> fst (read one_file_env (profile valid_example) Configuration_init
             (snd (write_cfg one_file_env valid_example (Some example_amazon) empty_world))) = Inr ()
   \<and> region (fst (snd (read one_file_env (profile valid_example) Configuration_init
             (snd (write_cfg one_file_env valid_example (Some example_amazon) empty_world))))) = PStr ''eu-west-1''
   \<and> ask_role (fst (snd (read one_file_env (profile valid_example) Configuration_init
             (snd (write_cfg one_file_env valid_example (Some example_amazon) empty_world))))) = PBool True
   \<and> duration (fst (snd (read one_file_env (profile valid_example) Configuration_init
             (snd (write_cfg one_file_env valid_example (Some example_amazon) empty_world))))) = PInt 43200
   \<and> login_url (fst (snd (read one_file_env (profile valid_example) Configuration_init
             (snd (write_cfg one_file_env valid_example (Some example_amazon) empty_world)))))
        = PStr ''https://idp.example.com/sso''
   \<and> role_arn (fst (snd (read one_file_env (profile valid_example) Configuration_init
             (snd (write_cfg one_file_env valid_example (Some example_amazon) empty_world)))))
        = PStr ''arn:aws:iam::123456789012:role/dev''"
proof -
  note flds = valid_example_fields
  have nd: "''default'' \<noteq> ''DEFAULT''" by simp
  have ok: "fst (write_cfg one_file_env valid_example (Some example_amazon) empty_world) = Inr ()"
    by (rule write_one_file_returns [OF flds(1) nd example_clean(4)])
       (simp_all add: flds single_line_str_int, simp_all add: single_line_def)
  then have w: "write_cfg one_file_env valid_example (Some example_amazon) empty_world =
      (Inr (), snd (write_cfg one_file_env valid_example (Some example_amazon) empty_world))"
    by (metis prod.collapse)
  have sh: "credentials_file one_file_env = config_file one_file_env"
    by (simp add: one_file_env_def)
  have pl: "credentials_print_plainly ''default'' (Some example_amazon)"
    by (simp add: credentials_print_plainly_def record_prints_plainly_def example_amazon_plain)
  have pl': "credentials_file one_file_env = config_file one_file_env \<longrightarrow>
      credentials_print_plainly ''default'' (Some example_amazon)"
    using pl by simp
  show ?thesis
    using write_then_read_round_trip [OF w flds(1) nd example_clean(4) flds(2) example_clean(1)
        flds(3) flds(4) flds(5) example_clean(2) flds(6) example_clean(3) pl', of Configuration_init]
      ok flds example_clean(1-4) sh pl
    by simp
qed

text \<open>
  C4 as stated fails in three ways. A region written with a blank in front comes back
  without it, because the parser strips the values it reads. Under the profile name
  \<open>DEFAULT\<close>, \<open>write\<close> raises \<open>ValueError\<close>: the parser refuses to add a section of that
  name, and nothing is written that could be read. Under the empty profile name, with
  a credential record and one file for config and credentials, \<open>write\<close> returns, but it
  has printed the header of a section with the empty name, and \<open>read\<close> raises
  \<open>ParsingError\<close>.
\<close>

lemma write_config_section_reserved:
  assumes "profile cfg = PStr ''DEFAULT''" and "parses w (config_file e)"
  shows "write_config_section e cfg w = (Inl ValueError, w)"
proof -
  obtain p0 where p0: "cp_read w (config_file e) = Inr p0"
    using assms(2) by (cases "cp_read w (config_file e)") (simp_all add: parses_def)
  have cp: "config_profile (PStr ''DEFAULT'') = PStr ''DEFAULT''" by code_simp
  have "\<not> cp_has_section p0 (PStr ''DEFAULT'')"
    by (simp add: cp_has_section_def cp_read_parsed(4) [OF p0])
  then show ?thesis
    by (simp add: write_config_section_def Let_def assms(1) cp p0 cp_add_section_def)
qed

theorem write_then_read_counterexample:
  "region padded_example = PStr '' eu-west-1''
   \<and> fst (write_cfg example_env padded_example None empty_world) = Inr ()
   \<and> fst (read example_env (profile padded_example) Configuration_init
             (snd (write_cfg example_env padded_example None empty_world))) = Inr ()
   \<and> region (fst (snd (read example_env (profile padded_example) Configuration_init
             (snd (write_cfg example_env padded_example None empty_world))))) = PStr ''eu-west-1''
   \<and> profile reserved_example = PStr ''DEFAULT''
   \<and> fst (write_cfg example_env reserved_example None empty_world) = Inl ValueError
   \<and> profile nameless_example = PStr []
   \<and> fst (write_cfg one_file_env nameless_example (Some example_amazon) empty_world) = Inr ()
   \<and> fst (read one_file_env (profile nameless_example) Configuration_init
             (snd (write_cfg one_file_env nameless_example (Some example_amazon) empty_world)))
        = Inl ParsingError"
proof -
  txt \<open>The padded region.\<close>
  have prof: "profile padded_example = PStr ''default''"
    and flds: "region padded_example = PStr '' eu-west-1''" "ask_role padded_example = PBool True"
      "duration padded_example = PInt 43200"
      "login_url padded_example = PStr ''https://idp.example.com/sso''"
      "role_arn padded_example = PStr ''arn:aws:iam::123456789012:role/dev''"
    by (simp_all add: padded_example_def valid_example_fields)
  have nd: "''default'' \<noteq> ''DEFAULT''" by simp
  have ok: "fst (write_cfg example_env padded_example None empty_world) = Inr ()"
    by (rule write_example_returns [OF prof nd example_clean(4)])
       (simp_all add: flds single_line_str_int, simp_all add: single_line_def)
  then have w: "write_cfg example_env padded_example None empty_world =
      (Inr (), snd (write_cfg example_env padded_example None empty_world))"
    by (metis prod.collapse)
  have lv: "single_line (py_str (region padded_example))" "single_line (py_str (login_url padded_example))"
    "single_line (py_str (role_arn padded_example))"
    by (simp_all add: flds example_clean)
  have pl: "credentials_file example_env = config_file example_env \<longrightarrow>
      credentials_print_plainly ''default'' None"
    by (simp add: credentials_print_plainly_def)
  have st: "strip '' eu-west-1'' = ''eu-west-1''"
    by (simp add: strip_def is_space_def)
  have one: "fst (read example_env (profile padded_example) Configuration_init
             (snd (write_cfg example_env padded_example None empty_world))) = Inr ()
     \<and> region (fst (snd (read example_env (profile padded_example) Configuration_init
             (snd (write_cfg example_env padded_example None empty_world))))) = PStr ''eu-west-1''"
    using flds(1)
    by (simp add: write_then_read_stripped [OF w prof example_clean(4) flds(2) flds(3) lv pl] st)
  txt \<open>The profile \<open>DEFAULT\<close>.\<close>
  have rprof: "profile reserved_example = PStr ''DEFAULT''"
    by (simp add: reserved_example_def)
  have rpn: "profile reserved_example \<noteq> PNone" by (simp add: rprof)
  have two: "fst (write_cfg example_env reserved_example None empty_world) = Inl ValueError"
  proof -
    let ?w1 = "empty_world\<lparr> dirs := {''/home/u/.aws'', ''/home/u''},
        files := [''/home/u/.aws/config'' \<mapsto> ini_empty, ''/home/u/.aws/credentials'' \<mapsto> ini_empty] \<rparr>"
    have f: "files ?w1 (config_file example_env) = Some ini_empty"
      by (simp add: example_env_def)
    have p: "parses (lock_acquire (lock_path (config_file example_env)) ?w1) (config_file example_env)"
      by (simp add: parses_def cp_read_fresh [OF f])
    show ?thesis
      unfolding write_cfg_without_record [OF ensure_empty_world rpn]
      by (simp add: Let_def write_config_section_reserved [OF rprof p])
  qed
  txt \<open>The empty profile name.\<close>
  have nprof: "profile nameless_example = PStr []"
    and nflds: "region nameless_example = PStr ''eu-west-1''" "ask_role nameless_example = PBool True"
      "duration nameless_example = PInt 43200"
      "login_url nameless_example = PStr ''https://idp.example.com/sso''"
      "role_arn nameless_example = PStr ''arn:aws:iam::123456789012:role/dev''"
    by (simp_all add: nameless_example_def valid_example_fields)
  have nnd: "[] \<noteq> ''DEFAULT''" by simp
  have nok: "fst (write_cfg one_file_env nameless_example (Some example_amazon) empty_world) = Inr ()"
    by (rule write_one_file_returns [OF nprof nnd example_clean(9)])
       (simp_all add: nflds single_line_str_int, simp_all add: single_line_def)
  let ?w' = "snd (write_cfg one_file_env nameless_example (Some example_amazon) empty_world)"
  from nok have nw: "write_cfg one_file_env nameless_example (Some example_amazon) empty_world = (Inr (), ?w')"
    by (metis prod.collapse)
  from write_cfg_returned [OF nw nprof] obtain w1 w3 w6 where
    k: "write_credentials_section one_file_env nameless_example example_amazon
          (lock_acquire (lock_path (credentials_file one_file_env))
             (lock_release (lock_path (config_file one_file_env)) w3)) = (Inr (), w6)"
    and w': "?w' = lock_release (lock_path (credentials_file one_file_env)) w6"
    by auto
  have "cp_read w6 (credentials_file one_file_env) = Inl ParsingError"
    by (rule write_credentials_section_nameless [OF k nprof example_amazon_plain])
  moreover have "credentials_file one_file_env = config_file one_file_env"
    by (simp add: one_file_env_def)
  ultimately have "cp_read w6 (config_file one_file_env) = Inl ParsingError"
    by simp
  then have bad: "cp_read ?w' (config_file one_file_env) = Inl ParsingError"
    by (simp only: w' cp_read_lock)
  have three: "fst (read one_file_env (profile nameless_example) Configuration_init ?w') = Inl ParsingError"
    by (simp add: read_unparsed [OF write_cfg_ensured [OF nw nprof] bad])
  show ?thesis
    using flds(1) ok one rprof two nprof nok three by simp
qed


end
